theory Spec2Isabelle
  imports Complex_Main "HOL-Library.Sublist" "HOL-Library.Log_Nat"
begin

section \<open>Python values\<close>

text \<open>
  The engine computes on Python floats. The functions are embedded twice. In the first
  embedding a float is a \<^typ>\<open>real\<close> and the arithmetic is exact: this decides the
  properties that rest on guards, on comparisons of given numbers and on bookmaker names,
  which rounding does not touch. The properties of computed values are stated on the
  second embedding (the functions with suffix \<open>_f64\<close>, further down), in which every
  arithmetic operation rounds as IEEE-754 double precision does. Division is the one
  arithmetic operation that raises: Python's \<^verbatim>\<open>x / y\<close> raises
  \<^verbatim>\<open>ZeroDivisionError\<close> when \<^verbatim>\<open>y == 0\<close>, so it is a function into a result
  type. Calls to the logger have no effect on any returned value or stored state and are
  left out throughout.
\<close>

datatype py_error = ZeroDivisionError

definition py_div :: "real \<Rightarrow> real \<Rightarrow> py_error + real" where
  "py_div x y = (if y = 0 then Inl ZeroDivisionError else Inr (x / y))"

text \<open>
  Python's one-argument \<^verbatim>\<open>round\<close> returns the nearest integer, a tie going to the
  even neighbour.
\<close>

definition py_round :: "real \<Rightarrow> int" where
  "py_round x =
     (let f = \<lfloor>x\<rfloor>; d = x - of_int f
      in if d < 1 / 2 then f else if 1 / 2 < d then f + 1
         else if even f then f else f + 1)"

subsection \<open>Strings\<close>

text \<open>
  A string is a list of characters. \<^verbatim>\<open>s.lower()\<close> is modelled on the ASCII
  letters, the alphabet of the bookmaker keys and sport keys of the odds provider;
  \<^verbatim>\<open>s.split('_')[0]\<close> is the part of \<^verbatim>\<open>s\<close> before its first underscore (all
  of \<^verbatim>\<open>s\<close> when it has none); \<^verbatim>\<open>x in s\<close> on strings holds when \<^verbatim>\<open>x\<close>
  occurs in \<^verbatim>\<open>s\<close> as a contiguous block.
\<close>

definition lower_char :: "char \<Rightarrow> char" where
  "lower_char c =
     (case map_of (zip ''ABCDEFGHIJKLMNOPQRSTUVWXYZ'' ''abcdefghijklmnopqrstuvwxyz'') c of
        None \<Rightarrow> c
      | Some d \<Rightarrow> d)"

definition lower :: "string \<Rightarrow> string" where
  "lower s = map lower_char s"

definition split_first :: "string \<Rightarrow> string" where
  "split_first s = takeWhile (\<lambda>c. c \<noteq> CHR ''_'') s"

fun str_in :: "string \<Rightarrow> string \<Rightarrow> bool" where
  "str_in x [] = (x = [])"
| "str_in x (c # cs) = (prefix x (c # cs) \<or> str_in x cs)"

text \<open>\<^verbatim>\<open>str(v)\<close> inside an f-string, for a value that may be \<^verbatim>\<open>None\<close>.\<close>

definition py_str :: "string option \<Rightarrow> string" where
  "py_str v = (case v of None \<Rightarrow> ''None'' | Some s \<Rightarrow> s)"

subsection \<open>Dictionaries\<close>

text \<open>
  A dictionary that the code iterates over is an association list in insertion order.
  Assigning to a key that is present replaces its value where the key stands; assigning
  to a new key appends it. A dictionary display with a repeated key performs these
  assignments from left to right.
\<close>

fun dict_set :: "('k \<times> 'v) list \<Rightarrow> 'k \<Rightarrow> 'v \<Rightarrow> ('k \<times> 'v) list" where
  "dict_set [] k v = [(k, v)]"
| "dict_set ((k', v') # d) k v =
     (if k' = k then (k, v) # d else (k', v') # dict_set d k v)"

definition dict_literal :: "('k \<times> 'v) list \<Rightarrow> ('k \<times> 'v) list" where
  "dict_literal ps = foldl (\<lambda>d (k, v). dict_set d k v) [] ps"

definition dict_get :: "('k \<times> 'v) list \<Rightarrow> 'k \<Rightarrow> 'v \<Rightarrow> 'v" where
  "dict_get d k dflt = (case map_of d k of None \<Rightarrow> dflt | Some v \<Rightarrow> v)"

section \<open>Configuration (config/settings.py)\<close>

text \<open>
  The module-level constants that the engine reads are collected in a record, so that
  every function below is stated for an arbitrary configuration; \<open>settings_py\<close> holds
  the values that config/settings.py assigns.
\<close>

record settings =
  SHARP_BOOKMAKERS :: "string list"
  SOFT_BOOKMAKERS :: "string list"
  MAX_ROI_THRESHOLD :: real
  MIN_ROI_THRESHOLD :: real
  BOOKMAKER_OVERTIME_RULES :: "(string \<times> string) list"
  HIGH_RISK_BOOKMAKERS :: "string list"
  DEFAULT_TOTAL_INVESTMENT :: real
  ENABLE_SMART_ROUNDING :: bool
  ENABLE_DRIFT_TRACKER :: bool
  DRIFT_THRESHOLD_PERCENT :: real
  DRIFT_SHARP_BOOKMAKERS :: "string list"
  DRIFT_VALUE_THRESHOLD :: real
  ENABLE_RISK_REPORTER :: bool

definition overtime_rules_py :: "(string \<times> string) list" where
  "overtime_rules_py = dict_literal
     [(''PointsBet'', ''includes_overtime''),
      (''DraftKings'', ''includes_overtime''),
      (''FanDuel'', ''includes_overtime''),
      (''BetMGM'', ''includes_overtime''),
      (''Caesars'', ''includes_overtime''),
      (''Unibet'', ''includes_overtime''),
      (''William Hill'', ''includes_overtime''),
      (''1xBet'', ''includes_overtime''),
      (''Pinnacle'', ''includes_overtime''),
      (''Kwiff'', ''regulation_only''),
      (''Betfair'', ''regulation_only''),
      (''Bet365'', ''regulation_only''),
      (''Ladbrokes'', ''regulation_only''),
      (''William Hill'', ''regulation_only''),
      (''Unibet'', ''regulation_only''),
      (''1xBet'', ''regulation_only''),
      (''Pinnacle'', ''regulation_only'')]"

definition settings_py :: settings where
  "settings_py =
     \<lparr>SHARP_BOOKMAKERS = [''pinnacle'', ''betfair'', ''bet365''],
      SOFT_BOOKMAKERS = [''1xbet'', ''unibet'', ''williamhill'', ''marathonbet''],
      MAX_ROI_THRESHOLD = 15,
      MIN_ROI_THRESHOLD = 3 / 2,
      BOOKMAKER_OVERTIME_RULES = overtime_rules_py,
      HIGH_RISK_BOOKMAKERS = [''Kwiff'', ''InternationalBookieX''],
      DEFAULT_TOTAL_INVESTMENT = 1000,
      ENABLE_SMART_ROUNDING = True,
      ENABLE_DRIFT_TRACKER = True,
      DRIFT_THRESHOLD_PERCENT = 5,
      DRIFT_SHARP_BOOKMAKERS = [''pinnacle'', ''betfair''],
      DRIFT_VALUE_THRESHOLD = 5,
      ENABLE_RISK_REPORTER = True\<rparr>"

section \<open>ArbitrageCalculator (src/calculators/arbitrage.py)\<close>

subsection \<open>The arbitrage tests\<close>

definition detect_two_way_arbitrage :: "real \<Rightarrow> real \<Rightarrow> py_error + (bool \<times> real)" where
  "detect_two_way_arbitrage odds_a odds_b =
     (if odds_a \<le> 0 \<or> odds_b \<le> 0 then Inr (False, 0)
      else case py_div 1 odds_a of Inl e \<Rightarrow> Inl e | Inr pa \<Rightarrow>
           case py_div 1 odds_b of Inl e \<Rightarrow> Inl e | Inr pb \<Rightarrow>
           let implied_total = pa + pb
           in if implied_total = 0 then Inr (False, 0)
              else if implied_total < 1 then
                (case py_div 1 implied_total of Inl e \<Rightarrow> Inl e
                 | Inr q \<Rightarrow> Inr (True, (q - 1) * 100))
              else Inr (False, 0))"

definition detect_three_way_arbitrage ::
  "real \<Rightarrow> real \<Rightarrow> real \<Rightarrow> py_error + (bool \<times> real)" where
  "detect_three_way_arbitrage odds_1 odds_x odds_2 =
     (if odds_1 \<le> 0 \<or> odds_x \<le> 0 \<or> odds_2 \<le> 0 then Inr (False, 0)
      else case py_div 1 odds_1 of Inl e \<Rightarrow> Inl e | Inr p1 \<Rightarrow>
           case py_div 1 odds_x of Inl e \<Rightarrow> Inl e | Inr px \<Rightarrow>
           case py_div 1 odds_2 of Inl e \<Rightarrow> Inl e | Inr p2 \<Rightarrow>
           let implied_total = p1 + px + p2
           in if implied_total = 0 then Inr (False, 0)
              else if implied_total < 1 then
                (case py_div 1 implied_total of Inl e \<Rightarrow> Inl e
                 | Inr q \<Rightarrow> Inr (True, (q - 1) * 100))
              else Inr (False, 0))"

subsection \<open>Stake allocation\<close>

text \<open>
  \<^verbatim>\<open>sum(1 / odds for odds in odds_list)\<close>: the running total starts at \<open>0\<close> and the
  first zero price raises.
\<close>

fun sum_inverse :: "real \<Rightarrow> real list \<Rightarrow> py_error + real" where
  "sum_inverse acc [] = Inr acc"
| "sum_inverse acc (odds # rest) =
     (case py_div 1 odds of Inl e \<Rightarrow> Inl e | Inr w \<Rightarrow> sum_inverse (acc + w) rest)"

definition smart_round :: "real \<Rightarrow> real" where
  "smart_round amount =
     (if amount > 1000 then of_int (py_round (amount / 100) * 100)
      else if amount > 100 then of_int (py_round (amount / 50) * 50)
      else of_int (py_round (amount / 5) * 5))"

definition round_stake :: "settings \<Rightarrow> real \<Rightarrow> real" where
  "round_stake cfg stake =
     (if ENABLE_SMART_ROUNDING cfg then smart_round stake
      else of_int (py_round (stake / 5) * 5))"

text \<open>
  The loop over \<^verbatim>\<open>odds_list\<close>. The value \<^verbatim>\<open>stake\<close> of each round is the stake
  before rounding; \<open>rnd\<close> is what the round appends for it.
\<close>

fun stakes_loop :: "(real \<Rightarrow> real) \<Rightarrow> real \<Rightarrow> real \<Rightarrow> real list \<Rightarrow> py_error + real list" where
  "stakes_loop rnd total_investment inverse_odds_sum [] = Inr []"
| "stakes_loop rnd total_investment inverse_odds_sum (odds # rest) =
     (case py_div 1 odds of Inl e \<Rightarrow> Inl e | Inr w \<Rightarrow>
      case py_div (total_investment * w) inverse_odds_sum of Inl e \<Rightarrow> Inl e | Inr stake \<Rightarrow>
      case stakes_loop rnd total_investment inverse_odds_sum rest of Inl e \<Rightarrow> Inl e
      | Inr stakes \<Rightarrow> Inr (rnd stake # stakes))"

definition calculate_stakes :: "settings \<Rightarrow> real \<Rightarrow> real list \<Rightarrow> py_error + real list" where
  "calculate_stakes cfg total_investment odds_list =
     (case sum_inverse 0 odds_list of Inl e \<Rightarrow> Inl e
      | Inr inverse_odds_sum \<Rightarrow>
          stakes_loop (round_stake cfg) total_investment inverse_odds_sum odds_list)"

subsection \<open>The safety filters\<close>

text \<open>
  The rejection reason is a formatted string in the source; here it is the tag the string
  starts with, together with the values the string is formatted from.
\<close>

datatype rejection =
  PALPABLE_ERROR real real
| LOW_PROFIT real real
| RULE_MISMATCH string string string string

text \<open>
  In the third filter, the loop over \<^verbatim>\<open>HIGH_RISK_BOOKMAKERS\<close> and the
  soccer/football branch only write to the log.
\<close>

definition apply_safety_filters ::
  "settings \<Rightarrow> real \<Rightarrow> string \<Rightarrow> string \<Rightarrow> string \<Rightarrow> bool \<times> rejection option" where
  "apply_safety_filters cfg roi bookmaker_a bookmaker_b sport =
     (if roi > MAX_ROI_THRESHOLD cfg then
        (False, Some (PALPABLE_ERROR roi (MAX_ROI_THRESHOLD cfg)))
      else if roi < MIN_ROI_THRESHOLD cfg then
        (False, Some (LOW_PROFIT roi (MIN_ROI_THRESHOLD cfg)))
      else if ENABLE_RISK_REPORTER cfg then
        (if str_in ''basketball'' (lower sport) then
           (let rule_a = dict_get (BOOKMAKER_OVERTIME_RULES cfg) bookmaker_a ''unknown'';
                rule_b = dict_get (BOOKMAKER_OVERTIME_RULES cfg) bookmaker_b ''unknown''
            in if rule_a \<noteq> rule_b \<and> rule_a \<noteq> ''unknown'' \<and> rule_b \<noteq> ''unknown'' then
                 (False, Some (RULE_MISMATCH bookmaker_a rule_a bookmaker_b rule_b))
               else (True, None))
         else (True, None))
      else (True, None))"

section \<open>BookmakerClassifier (src/utils/bookmaker_classifier.py)\<close>

definition sharps :: "settings \<Rightarrow> string list" where
  "sharps cfg = map lower (SHARP_BOOKMAKERS cfg)"

definition softs :: "settings \<Rightarrow> string list" where
  "softs cfg = map lower (SOFT_BOOKMAKERS cfg)"

definition classify_bookmaker :: "settings \<Rightarrow> string \<Rightarrow> string" where
  "classify_bookmaker cfg bookmaker =
     (let clean_name = lower (split_first bookmaker)
      in if clean_name \<in> set (sharps cfg) then ''sharp''
         else if clean_name \<in> set (softs cfg) then ''soft''
         else ''unknown'')"

definition get_sharp_bookmaker :: "settings \<Rightarrow> string \<Rightarrow> string \<Rightarrow> string option" where
  "get_sharp_bookmaker cfg bookmaker_a bookmaker_b =
     (let class_a = classify_bookmaker cfg bookmaker_a;
          class_b = classify_bookmaker cfg bookmaker_b
      in if class_a = ''sharp'' then Some bookmaker_a
         else if class_b = ''sharp'' then Some bookmaker_b
         else None)"

section \<open>RiskReporter (src/utils/advanced_monitors.py)\<close>

text \<open>
  \<open>_get_settlement_rule\<close>: the loop over the items of the rules table returns the rule
  of the first key that contains the cleaned name, or is contained in it, ignoring case.
  The \<^verbatim>\<open>sport\<close> argument is not used by the source.
\<close>

fun settlement_rule_loop :: "(string \<times> string) list \<Rightarrow> string \<Rightarrow> string" where
  "settlement_rule_loop [] clean_name = ''unknown''"
| "settlement_rule_loop ((key, rule) # items) clean_name =
     (if str_in (lower key) (lower clean_name) \<or> str_in (lower clean_name) (lower key)
      then rule
      else settlement_rule_loop items clean_name)"

definition get_settlement_rule :: "settings \<Rightarrow> string \<Rightarrow> string \<Rightarrow> string" where
  "get_settlement_rule cfg bookmaker sport =
     (let clean_name = split_first bookmaker
      in settlement_rule_loop (BOOKMAKER_OVERTIME_RULES cfg) clean_name)"

section \<open>DriftTracker (src/utils/advanced_monitors.py)\<close>

text \<open>
  The value-bet mode keeps one record per key \<^verbatim>\<open>f"{event_id}:{outcome}"\<close> in the
  dictionary \<^verbatim>\<open>sharp_prices\<close>, which is only read and written by key and never
  iterated: a map. The record's time stamp is the reading \<open>now\<close> of the clock at the call
  (\<^verbatim>\<open>datetime.now()\<close>), passed in as an argument. The other dictionary of the class,
  \<^verbatim>\<open>historical_odds\<close>, belongs to \<^verbatim>\<open>track_movement\<close> and is not touched here. An
  event id is whatever \<^verbatim>\<open>event.get('id')\<close> gives, a string or \<^verbatim>\<open>None\<close>.
\<close>

type_synonym timestamp = nat

record sharp_price =
  sp_bookmaker :: string
  sp_odds :: real
  sp_timestamp :: timestamp

record DriftTracker =
  sharp_prices :: "string \<rightharpoonup> sharp_price"

text \<open>
  The value-bet alert. Its constant entry \<^verbatim>\<open>'type': 'value_bet'\<close> and its
  recommendation text, formatted from the other entries, are left out.
\<close>

record value_bet =
  vb_event_id :: "string option"
  vb_outcome :: string
  soft_bookmaker :: string
  soft_odds :: real
  sharp_bookmaker :: string
  sharp_odds :: real
  value_gap :: real

definition event_outcome_key :: "string option \<Rightarrow> string \<Rightarrow> string" where
  "event_outcome_key event_id outcome = py_str event_id @ '':'' @ outcome"

definition track_value_opportunity ::
  "settings \<Rightarrow> timestamp \<Rightarrow> DriftTracker \<Rightarrow> string option \<Rightarrow> string \<Rightarrow> string \<Rightarrow> real \<Rightarrow>
   py_error + (DriftTracker \<times> value_bet option)" where
  "track_value_opportunity cfg now self event_id bookmaker outcome current_odds =
     (let clean_bookie = lower (split_first bookmaker);
          bookie_class = classify_bookmaker cfg bookmaker;
          key = event_outcome_key event_id outcome
      in if clean_bookie \<in> set (map lower (DRIFT_SHARP_BOOKMAKERS cfg)) then
           (case sharp_prices self key of
              None \<Rightarrow>
                Inr (self\<lparr>sharp_prices := (sharp_prices self)(key \<mapsto>
                       \<lparr>sp_bookmaker = bookmaker, sp_odds = current_odds,
                        sp_timestamp = now\<rparr>)\<rparr>, None)
            | Some stored \<Rightarrow>
                (let prev_sharp = sp_odds stored
                 in if current_odds < prev_sharp then
                      (case py_div (prev_sharp - current_odds) prev_sharp of
                         Inl e \<Rightarrow> Inl e
                       | Inr q \<Rightarrow>
                           (let drop_pct = q * 100
                            in if drop_pct > 3 then
                                 Inr (self\<lparr>sharp_prices := (sharp_prices self)(key \<mapsto>
                                        \<lparr>sp_bookmaker = bookmaker, sp_odds = current_odds,
                                         sp_timestamp = now\<rparr>)\<rparr>, None)
                               else Inr (self, None)))
                    else Inr (self, None)))
         else if bookie_class = ''soft'' then
           (case sharp_prices self key of
              None \<Rightarrow> Inr (self, None)
            | Some stored \<Rightarrow>
                (let sharp_price = sp_odds stored;
                     sharp_bookie = sp_bookmaker stored
                 in case py_div (current_odds - sharp_price) sharp_price of
                      Inl e \<Rightarrow> Inl e
                    | Inr q \<Rightarrow>
                        (let value_gap_pct = q * 100
                         in if value_gap_pct > DRIFT_VALUE_THRESHOLD cfg then
                              Inr (self,
                                Some \<lparr>vb_event_id = event_id, vb_outcome = outcome,
                                      soft_bookmaker = bookmaker, soft_odds = current_odds,
                                      sharp_bookmaker = sharp_bookie, sharp_odds = sharp_price,
                                      value_gap = value_gap_pct\<rparr>)
                            else Inr (self, None))))
         else Inr (self, None))"




section \<open>Scanning an event (src/calculators/arbitrage.py)\<close>

text \<open>
  An entry of \<^verbatim>\<open>parsed_odds\<close> with the three keys that the scan reads, the event with
  the keys it reads through \<^verbatim>\<open>event.get\<close> (\<open>None\<close> for a key that is absent), and the
  dictionaries it builds.
\<close>

record entry =
  entry_bookmaker :: string
  entry_outcome :: string
  entry_odds :: real

record event =
  ev_id :: "string option"
  ev_sport_key :: "string option"
  ev_sport_title :: "string option"
  ev_home_team :: "string option"
  ev_away_team :: "string option"
  ev_commence_time :: "string option"

record bet =
  bet_outcome :: string
  bet_odds :: real
  bet_bookmaker :: string

record opportunity =
  opp_event_id :: "string option"
  opp_sport :: string
  opp_event_name :: string
  opp_commence_time :: "string option"
  opp_roi :: real
  opp_bets :: "bet list"
  opp_stakes :: "real list"

text \<open>
  Grouping by outcome: \<^verbatim>\<open>outcomes_map\<close> is a dictionary from each outcome name, in the
  order of first appearance, to the entries quoting it, in their order. Its keys are
  distinct, so \<^verbatim>\<open>outcomes_map[k]\<close> is the list paired with \<open>k\<close>.
\<close>

fun group_entry :: "(string \<times> entry list) list \<Rightarrow> entry \<Rightarrow> (string \<times> entry list) list" where
  "group_entry [] e = [(entry_outcome e, [e])]"
| "group_entry ((k, es) # m) e =
     (if k = entry_outcome e then (k, es @ [e]) # m else (k, es) # group_entry m e)"

definition group_by_outcome :: "entry list \<Rightarrow> (string \<times> entry list) list" where
  "group_by_outcome parsed_odds = foldl group_entry [] parsed_odds"

text \<open>
  The value-betting loops: every entry of every group is passed to the tracker; the alert
  it may return is dropped.
\<close>

fun track_entries ::
  "settings \<Rightarrow> timestamp \<Rightarrow> DriftTracker \<Rightarrow> string option \<Rightarrow> string \<Rightarrow> entry list \<Rightarrow>
   py_error + DriftTracker" where
  "track_entries cfg now tracker event_id outcome [] = Inr tracker"
| "track_entries cfg now tracker event_id outcome (e # es) =
     (case track_value_opportunity cfg now tracker event_id (entry_bookmaker e) outcome
             (entry_odds e) of
        Inl err \<Rightarrow> Inl err
      | Inr (tracker', value_opp) \<Rightarrow> track_entries cfg now tracker' event_id outcome es)"

fun track_outcomes ::
  "settings \<Rightarrow> timestamp \<Rightarrow> DriftTracker \<Rightarrow> string option \<Rightarrow> (string \<times> entry list) list \<Rightarrow>
   py_error + DriftTracker" where
  "track_outcomes cfg now tracker event_id [] = Inr tracker"
| "track_outcomes cfg now tracker event_id ((outcome, odds_entries) # groups) =
     (case track_entries cfg now tracker event_id outcome odds_entries of
        Inl err \<Rightarrow> Inl err
      | Inr tracker' \<Rightarrow> track_outcomes cfg now tracker' event_id groups)"

text \<open>
  A \<^verbatim>\<open>for\<close> loop whose body appends to \<^verbatim>\<open>opportunities\<close>: \<open>body x\<close> is what the
  round for \<open>x\<close> appends, or the exception it raises.
\<close>

fun for_each :: "('a \<Rightarrow> py_error + 'b list) \<Rightarrow> 'a list \<Rightarrow> py_error + 'b list" where
  "for_each body [] = Inr []"
| "for_each body (x # xs) =
     (case body x of Inl e \<Rightarrow> Inl e
      | Inr ys \<Rightarrow> (case for_each body xs of Inl e \<Rightarrow> Inl e | Inr zs \<Rightarrow> Inr (ys @ zs)))"

definition event_name_of :: "event \<Rightarrow> string" where
  "event_name_of ev = py_str (ev_home_team ev) @ '' vs '' @ py_str (ev_away_team ev)"

definition make_opportunity :: "event \<Rightarrow> real \<Rightarrow> (string \<times> entry) list \<Rightarrow> real list \<Rightarrow> opportunity" where
  "make_opportunity ev roi legs stakes =
     \<lparr>opp_event_id = ev_id ev,
      opp_sport = (case ev_sport_title ev of None \<Rightarrow> ''Unknown'' | Some t \<Rightarrow> t),
      opp_event_name = event_name_of ev,
      opp_commence_time = ev_commence_time ev,
      opp_roi = roi,
      opp_bets = map (\<lambda>(outcome, e). \<lparr>bet_outcome = outcome, bet_odds = entry_odds e,
                                       bet_bookmaker = entry_bookmaker e\<rparr>) legs,
      opp_stakes = stakes\<rparr>"

definition sport_key_of :: "event \<Rightarrow> string" where
  "sport_key_of ev = (case ev_sport_key ev of None \<Rightarrow> [] | Some k \<Rightarrow> k)"

text \<open>The body of the innermost loop of the two-way scan.\<close>

definition two_way_body ::
  "settings \<Rightarrow> event \<Rightarrow> string \<Rightarrow> string \<Rightarrow> entry \<Rightarrow> entry \<Rightarrow> py_error + opportunity list" where
  "two_way_body cfg ev outcome_a outcome_b odds_a_entry odds_b_entry =
     (if entry_bookmaker odds_a_entry = entry_bookmaker odds_b_entry then Inr []
      else case detect_two_way_arbitrage (entry_odds odds_a_entry) (entry_odds odds_b_entry) of
        Inl e \<Rightarrow> Inl e
      | Inr (is_arb, roi) \<Rightarrow>
          if is_arb then
            (case apply_safety_filters cfg roi (entry_bookmaker odds_a_entry)
                    (entry_bookmaker odds_b_entry) (sport_key_of ev) of
               (passes, reason) \<Rightarrow>
                 if passes then
                   (case calculate_stakes cfg (DEFAULT_TOTAL_INVESTMENT cfg)
                           [entry_odds odds_a_entry, entry_odds odds_b_entry] of
                      Inl e \<Rightarrow> Inl e
                    | Inr stakes \<Rightarrow>
                        Inr [make_opportunity ev roi
                               [(outcome_a, odds_a_entry), (outcome_b, odds_b_entry)] stakes])
                 else Inr [])
          else Inr [])"

text \<open>
  The body of the innermost loop of the three-way scan. \<^verbatim>\<open>bookies\<close> is a Python set;
  the filters see the bookmakers of the first and the third leg.
\<close>

definition three_way_body ::
  "settings \<Rightarrow> event \<Rightarrow> string \<Rightarrow> string \<Rightarrow> string \<Rightarrow> entry \<Rightarrow> entry \<Rightarrow> entry \<Rightarrow>
   py_error + opportunity list" where
  "three_way_body cfg ev outcome_1 outcome_x outcome_2 odds_1 odds_x odds_2 =
     (let bookies = {entry_bookmaker odds_1, entry_bookmaker odds_x, entry_bookmaker odds_2}
      in if card bookies < 2 then Inr []
         else case detect_three_way_arbitrage (entry_odds odds_1) (entry_odds odds_x)
                     (entry_odds odds_2) of
           Inl e \<Rightarrow> Inl e
         | Inr (is_arb, roi) \<Rightarrow>
             if is_arb then
               (case apply_safety_filters cfg roi (entry_bookmaker odds_1)
                       (entry_bookmaker odds_2) (sport_key_of ev) of
                  (passes, reason) \<Rightarrow>
                    if passes then
                      (case calculate_stakes cfg (DEFAULT_TOTAL_INVESTMENT cfg)
                              [entry_odds odds_1, entry_odds odds_x, entry_odds odds_2] of
                         Inl e \<Rightarrow> Inl e
                       | Inr stakes \<Rightarrow>
                           Inr [make_opportunity ev roi
                                  [(outcome_1, odds_1), (outcome_x, odds_x), (outcome_2, odds_2)]
                                  stakes])
                    else Inr [])
             else Inr [])"

text \<open>
  The scan of one event. It returns the tracker as the value-betting loops leave it,
  together with the list of opportunities.
\<close>

definition find_arbitrage_opportunities ::
  "settings \<Rightarrow> timestamp \<Rightarrow> DriftTracker \<Rightarrow> event \<Rightarrow> entry list \<Rightarrow>
   py_error + (DriftTracker \<times> opportunity list)" where
  "find_arbitrage_opportunities cfg now drift_tracker ev parsed_odds =
     (let outcomes_map = group_by_outcome parsed_odds
      in case track_outcomes cfg now drift_tracker (ev_id ev) outcomes_map of
           Inl e \<Rightarrow> Inl e
         | Inr tracker' \<Rightarrow>
             (case outcomes_map of
                [(outcome_a, entries_a), (outcome_b, entries_b)] \<Rightarrow>
                  (case for_each (\<lambda>odds_a_entry.
                           for_each (two_way_body cfg ev outcome_a outcome_b odds_a_entry)
                             entries_b) entries_a of
                     Inl e \<Rightarrow> Inl e
                   | Inr opportunities \<Rightarrow> Inr (tracker', opportunities))
              | [(outcome_1, entries_1), (outcome_x, entries_x), (outcome_2, entries_2)] \<Rightarrow>
                  (case for_each (\<lambda>odds_1.
                           for_each (\<lambda>odds_x.
                             for_each (three_way_body cfg ev outcome_1 outcome_x outcome_2
                                         odds_1 odds_x)
                               entries_2) entries_x) entries_1 of
                     Inl e \<Rightarrow> Inl e
                   | Inr opportunities \<Rightarrow> Inr (tracker', opportunities))
              | _ \<Rightarrow> Inr (tracker', [])))"

subsection \<open>Plain drift\<close>

text \<open>
  \<^verbatim>\<open>previous_odds\<close> maps an event id to the price dictionary stored for it; the price
  dictionaries are iterated, so they are association lists.
\<close>

record ArbitrageCalculator =
  previous_odds :: "string option \<rightharpoonup> (string \<times> real) list"

record drift_alert =
  da_event_id :: "string option"
  da_outcome :: string
  da_previous_odds :: real
  da_current_odds :: real
  drift_percent :: real

text \<open>
  The loop over \<^verbatim>\<open>current_odds.items()\<close>: it returns from the function with the alert
  of the first outcome that moved by more than the threshold.
\<close>

fun drift_loop ::
  "settings \<Rightarrow> string option \<Rightarrow> (string \<times> real) list \<Rightarrow> (string \<times> real) list \<Rightarrow>
   py_error + drift_alert option" where
  "drift_loop cfg event_id prev [] = Inr None"
| "drift_loop cfg event_id prev ((outcome, current_value) # rest) =
     (case map_of prev outcome of
        None \<Rightarrow> drift_loop cfg event_id prev rest
      | Some prev_value \<Rightarrow>
          (case py_div (current_value - prev_value) prev_value of
             Inl e \<Rightarrow> Inl e
           | Inr q \<Rightarrow>
               (let change_pct = \<bar>q\<bar> * 100
                in if change_pct > DRIFT_THRESHOLD_PERCENT cfg then
                     Inr (Some \<lparr>da_event_id = event_id, da_outcome = outcome,
                                da_previous_odds = prev_value, da_current_odds = current_value,
                                drift_percent = change_pct\<rparr>)
                   else drift_loop cfg event_id prev rest)))"

definition track_odds_drift ::
  "settings \<Rightarrow> ArbitrageCalculator \<Rightarrow> string option \<Rightarrow> (string \<times> real) list \<Rightarrow>
   py_error + (ArbitrageCalculator \<times> drift_alert option)" where
  "track_odds_drift cfg self event_id current_odds =
     (if \<not> ENABLE_DRIFT_TRACKER cfg then Inr (self, None)
      else case (case previous_odds self event_id of
                   None \<Rightarrow> Inr None
                 | Some prev \<Rightarrow> drift_loop cfg event_id prev current_odds) of
             Inl e \<Rightarrow> Inl e
           | Inr (Some alert) \<Rightarrow> Inr (self, Some alert)
           | Inr None \<Rightarrow>
               Inr (self\<lparr>previous_odds := (previous_odds self)(event_id \<mapsto> current_odds)\<rparr>,
                    None))"

section \<open>Double-precision arithmetic\<close>

text \<open>
  A Python float is an IEEE-754 binary64 value: a finite number, an infinity or NaN. A
  finite float is carried as the real number it denotes; the two zeros are one value,
  since no operation of the engine tells them apart (division by either raises). Every
  arithmetic operation returns the exact result rounded to the nearest double, a tie going
  to the even significand, and an infinity when the rounded magnitude reaches \<open>2\<^sup>1\<^sup>0\<^sup>2\<^sup>4\<close>.

  \<open>binade x\<close> is the exponent \<open>e\<close> with \<open>2\<^sup>e \<le> \<bar>x\<bar> < 2\<^sup>e\<^sup>+\<^sup>1\<close>. The doubles of that binade
  are the multiples of \<open>2\<^sup>e\<^sup>-\<^sup>5\<^sup>2\<close>; below \<open>2\<^sup>-\<^sup>1\<^sup>0\<^sup>2\<^sup>2\<close> (subnormal range) they are the
  multiples of \<open>2\<^sup>-\<^sup>1\<^sup>0\<^sup>7\<^sup>4\<close>.
\<close>

datatype pyfloat = Fin real | PInf | NInf | NaN

definition binade :: "real \<Rightarrow> int" where
  "binade x = (if 1 \<le> \<bar>x\<bar> then bitlen \<lfloor>\<bar>x\<bar>\<rfloor> - 1 else - bitlen (\<lceil>1 / \<bar>x\<bar>\<rceil> - 1))"

definition round_f64 :: "real \<Rightarrow> pyfloat" where
  "round_f64 x =
     (if x = 0 then Fin 0
      else let q = 2 powi (max (binade x) (- 1022) - 52);
               y = of_int (py_round (x / q)) * q
           in if 2 ^ 1024 \<le> \<bar>y\<bar> then (if 0 < x then PInf else NInf) else Fin y)"

text \<open>
  The operations on floats, with the special cases of IEEE-754. Python's division raises
  on a zero divisor, whatever the dividend; comparisons with NaN are false.
\<close>

fun fneg :: "pyfloat \<Rightarrow> pyfloat" where
  "fneg (Fin x) = Fin (- x)"
| "fneg PInf = NInf"
| "fneg NInf = PInf"
| "fneg NaN = NaN"

fun fadd :: "pyfloat \<Rightarrow> pyfloat \<Rightarrow> pyfloat" where
  "fadd (Fin x) (Fin y) = round_f64 (x + y)"
| "fadd NaN y = NaN"
| "fadd x NaN = NaN"
| "fadd PInf NInf = NaN"
| "fadd NInf PInf = NaN"
| "fadd PInf y = PInf"
| "fadd x PInf = PInf"
| "fadd NInf y = NInf"
| "fadd x NInf = NInf"

definition fsub :: "pyfloat \<Rightarrow> pyfloat \<Rightarrow> pyfloat" where
  "fsub x y = fadd x (fneg y)"

fun fmul :: "pyfloat \<Rightarrow> pyfloat \<Rightarrow> pyfloat" where
  "fmul (Fin x) (Fin y) = round_f64 (x * y)"
| "fmul NaN y = NaN"
| "fmul x NaN = NaN"
| "fmul (Fin x) PInf = (if x = 0 then NaN else if 0 < x then PInf else NInf)"
| "fmul (Fin x) NInf = (if x = 0 then NaN else if 0 < x then NInf else PInf)"
| "fmul PInf (Fin y) = (if y = 0 then NaN else if 0 < y then PInf else NInf)"
| "fmul NInf (Fin y) = (if y = 0 then NaN else if 0 < y then NInf else PInf)"
| "fmul PInf PInf = PInf"
| "fmul NInf NInf = PInf"
| "fmul PInf NInf = NInf"
| "fmul NInf PInf = NInf"

fun fdiv :: "pyfloat \<Rightarrow> pyfloat \<Rightarrow> py_error + pyfloat" where
  "fdiv x (Fin y) =
     (if y = 0 then Inl ZeroDivisionError
      else case x of
        Fin x' \<Rightarrow> Inr (round_f64 (x' / y))
      | PInf \<Rightarrow> Inr (if 0 < y then PInf else NInf)
      | NInf \<Rightarrow> Inr (if 0 < y then NInf else PInf)
      | NaN \<Rightarrow> Inr NaN)"
| "fdiv (Fin x) PInf = Inr (Fin 0)"
| "fdiv (Fin x) NInf = Inr (Fin 0)"
| "fdiv x y = Inr NaN"

fun flt :: "pyfloat \<Rightarrow> pyfloat \<Rightarrow> bool" where
  "flt (Fin x) (Fin y) = (x < y)"
| "flt NaN y = False"
| "flt x NaN = False"
| "flt x NInf = False"
| "flt NInf y = True"
| "flt PInf y = False"
| "flt x PInf = True"

fun feq :: "pyfloat \<Rightarrow> pyfloat \<Rightarrow> bool" where
  "feq (Fin x) (Fin y) = (x = y)"
| "feq PInf PInf = True"
| "feq NInf NInf = True"
| "feq x y = False"

definition fle :: "pyfloat \<Rightarrow> pyfloat \<Rightarrow> bool" where
  "fle x y = (flt x y \<or> feq x y)"

definition fgt :: "pyfloat \<Rightarrow> pyfloat \<Rightarrow> bool" where
  "fgt x y = flt y x"

text \<open>\<open>detect_two_way_arbitrage\<close> on double-precision floats.\<close>

definition detect_two_way_arbitrage_f64 ::
  "pyfloat \<Rightarrow> pyfloat \<Rightarrow> py_error + (bool \<times> pyfloat)" where
  "detect_two_way_arbitrage_f64 odds_a odds_b =
     (if fle odds_a (Fin 0) \<or> fle odds_b (Fin 0) then Inr (False, Fin 0)
      else case fdiv (Fin 1) odds_a of Inl e \<Rightarrow> Inl e | Inr pa \<Rightarrow>
           case fdiv (Fin 1) odds_b of Inl e \<Rightarrow> Inl e | Inr pb \<Rightarrow>
           let implied_total = fadd pa pb
           in if feq implied_total (Fin 0) then Inr (False, Fin 0)
              else if flt implied_total (Fin 1) then
                (case fdiv (Fin 1) implied_total of Inl e \<Rightarrow> Inl e
                 | Inr q \<Rightarrow> Inr (True, fmul (fsub q (Fin 1)) (Fin 100)))
              else Inr (False, Fin 0))"

section \<open>Properties\<close>

subsection \<open>The two-way test\<close>

text \<open>
  C9. Whenever either of the two odds is \<open>\<le> 0\<close> (in particular when both are),
  \<open>detect_two_way_arbitrage\<close> returns normally, without \<open>ZeroDivisionError\<close>, and
  reports no arbitrage.
\<close>

theorem detect_two_way_arbitrage_invalid:
  assumes "a \<le> 0 \<or> b \<le> 0"
  shows "detect_two_way_arbitrage a b = Inr (False, 0)"
  using assms by (auto simp: detect_two_way_arbitrage_def)

theorem detect_two_way_arbitrage_invalid_witness:
  "detect_two_way_arbitrage 0 0 = Inr (False, 0)
   \<and> detect_two_way_arbitrage (- 2) 3 = Inr (False, 0)
   \<and> detect_two_way_arbitrage 3 0 = Inr (False, 0)"
  using detect_two_way_arbitrage_invalid [of 0 0]
    detect_two_way_arbitrage_invalid [of "- 2" 3]
    detect_two_way_arbitrage_invalid [of 3 0]
  by simp

subsection \<open>Rounding to double precision\<close>

lemma binade_bounds:
  assumes "x \<noteq> 0"
  shows "2 powi binade x \<le> \<bar>x\<bar>" and "\<bar>x\<bar> < 2 powi (binade x + 1)"
proof -
  have "2 powi binade x \<le> \<bar>x\<bar> \<and> \<bar>x\<bar> < 2 powi (binade x + 1)"
  proof (cases "1 \<le> \<bar>x\<bar>")
    case True
    define n where "n = \<lfloor>\<bar>x\<bar>\<rfloor>"
    from True have n: "0 < n" by (simp add: n_def)
    define b where "b = bitlen n"
    from bitlen_bounds [OF n] have lo: "2 ^ nat (b - 1) \<le> n" and hi: "n < 2 ^ nat b"
      by (simp_all add: b_def)
    from n have "bitlen n \<noteq> 0" by (simp add: bitlen_eq_zero_iff)
    with bitlen_nonneg [of n] have b1: "1 \<le> b" by (simp add: b_def)
    have bin: "binade x = b - 1"
      using True by (simp add: binade_def n_def b_def)
    from lo have "real_of_int (2 ^ nat (b - 1)) \<le> real_of_int n"
      by (rule iffD2 [OF of_int_le_iff])
    then have "(2::real) ^ nat (b - 1) \<le> real_of_int n" by simp
    moreover have "real_of_int n \<le> \<bar>x\<bar>" by (simp add: n_def)
    ultimately have "(2::real) ^ nat (b - 1) \<le> \<bar>x\<bar>" by linarith
    then have l: "2 powi (b - 1) \<le> \<bar>x\<bar>"
      using b1 by (simp add: power_int_def)
    from hi have "n + 1 \<le> 2 ^ nat b" by simp
    then have "real_of_int (n + 1) \<le> real_of_int (2 ^ nat b)"
      by (rule iffD2 [OF of_int_le_iff])
    then have "real_of_int n + 1 \<le> 2 ^ nat b" by simp
    moreover have "\<bar>x\<bar> < real_of_int n + 1"
      by (simp add: n_def)
    ultimately have "\<bar>x\<bar> < 2 ^ nat b" by linarith
    then have h: "\<bar>x\<bar> < 2 powi b"
      using b1 by (simp add: power_int_def)
    from l h show ?thesis by (simp add: bin)
  next
    case False
    define y where "y = 1 / \<bar>x\<bar>"
    from False assms have x01: "0 < \<bar>x\<bar>" "\<bar>x\<bar> < 1" by simp_all
    then have y1: "1 < y" by (simp add: y_def)
    define m where "m = \<lceil>y\<rceil> - 1"
    from y1 have m: "0 < m" unfolding m_def by linarith
    define b where "b = bitlen m"
    from bitlen_bounds [OF m] have lo: "2 ^ nat (b - 1) \<le> m" and hi: "m < 2 ^ nat b"
      by (simp_all add: b_def)
    from m have "bitlen m \<noteq> 0" by (simp add: bitlen_eq_zero_iff)
    with bitlen_nonneg [of m] have b1: "1 \<le> b" by (simp add: b_def)
    have bin: "binade x = - b"
      using False by (simp add: binade_def y_def m_def b_def)
    have my: "real_of_int m < y" unfolding m_def by linarith
    from lo have "real_of_int (2 ^ nat (b - 1)) \<le> real_of_int m"
      by (rule iffD2 [OF of_int_le_iff])
    then have "(2::real) ^ nat (b - 1) \<le> real_of_int m" by simp
    with my have ylo: "2 ^ nat (b - 1) < y" by linarith
    from hi have "m + 1 \<le> 2 ^ nat b" by simp
    then have "real_of_int (m + 1) \<le> real_of_int (2 ^ nat b)"
      by (rule iffD2 [OF of_int_le_iff])
    then have "real_of_int m + 1 \<le> 2 ^ nat b" by simp
    moreover have "y \<le> real_of_int m + 1" unfolding m_def by linarith
    ultimately have yhi: "y \<le> 2 ^ nat b" by linarith
    have pb: "(2::real) powi (- b) = 1 / 2 ^ nat b"
      using b1 by (simp add: power_int_def field_simps)
    have pb1: "(2::real) powi (1 - b) = 1 / 2 ^ nat (b - 1)"
    proof (cases "b = 1")
      case True
      then show ?thesis by simp
    next
      case False
      with b1 have "1 - b < 0" and "nat (b - 1) = nat (- (1 - b))" by simp_all
      then show ?thesis by (simp add: power_int_def field_simps)
    qed
    from yhi x01 have "1 / 2 ^ nat b \<le> \<bar>x\<bar>"
      by (simp add: y_def field_simps)
    moreover from ylo x01 have "\<bar>x\<bar> < 1 / 2 ^ nat (b - 1)"
      by (simp add: y_def field_simps)
    ultimately show ?thesis by (simp add: bin pb pb1)
  qed
  then show "2 powi binade x \<le> \<bar>x\<bar>" and "\<bar>x\<bar> < 2 powi (binade x + 1)" by simp_all
qed

lemma binade_unique:
  assumes "2 powi e \<le> \<bar>x\<bar>" and "\<bar>x\<bar> < 2 powi (e + 1)"
  shows "binade x = e"
proof -
  from assms(1) have "0 < \<bar>x\<bar>"
    by (rule less_le_trans [rotated]) simp
  then have nz: "x \<noteq> 0" by simp
  note b = binade_bounds [OF nz]
  have "binade x < e + 1"
  proof (rule ccontr)
    assume "\<not> binade x < e + 1"
    then have "(2::real) powi (e + 1) \<le> 2 powi binade x"
      by (intro power_int_increasing) simp_all
    with b(1) assms(2) show False by linarith
  qed
  moreover have "e < binade x + 1"
  proof (rule ccontr)
    assume "\<not> e < binade x + 1"
    then have "(2::real) powi (binade x + 1) \<le> 2 powi e"
      by (intro power_int_increasing) simp_all
    with b(2) assms(1) show False by linarith
  qed
  ultimately show ?thesis by simp
qed


lemma py_round_error: "\<bar>real_of_int (py_round z) - z\<bar> \<le> 1 / 2"
  unfolding py_round_def Let_def by (auto simp: abs_if) linarith+

lemma py_round_le: "z \<le> real_of_int n \<Longrightarrow> py_round z \<le> n"
proof -
  assume a: "z \<le> real_of_int n"
  then have f: "\<lfloor>z\<rfloor> \<le> n" by (simp add: floor_le_iff)
  show ?thesis
  proof (cases "\<lfloor>z\<rfloor> = n")
    case True
    with a have "z = real_of_int n"
      using of_int_floor_le [of z] by simp
    then show ?thesis by (simp add: py_round_def)
  next
    case False
    with f have "\<lfloor>z\<rfloor> + 1 \<le> n" by simp
    then show ?thesis by (auto simp: py_round_def Let_def)
  qed
qed

lemma py_round_ge: "real_of_int n \<le> z \<Longrightarrow> n \<le> py_round z"
proof -
  assume "real_of_int n \<le> z"
  then have "n \<le> \<lfloor>z\<rfloor>" by (simp add: le_floor_iff)
  then show ?thesis by (auto simp: py_round_def Let_def)
qed

lemma round_f64_cases:
  assumes "x \<noteq> 0"
  shows "round_f64 x =
    (if 2 ^ 1024 \<le> \<bar>real_of_int (py_round (x / 2 powi (max (binade x) (- 1022) - 52)))
          * 2 powi (max (binade x) (- 1022) - 52)\<bar>
     then (if 0 < x then PInf else NInf)
     else Fin (real_of_int (py_round (x / 2 powi (max (binade x) (- 1022) - 52)))
          * 2 powi (max (binade x) (- 1022) - 52)))"
  using assms by (simp add: round_f64_def Let_def)


lemma two_powi_53: "(2::real) powi 53 = real_of_int (2 ^ 53)"
  by (simp add: power_int_def)

lemma round_f64_positive:
  assumes "0 < x"
  obtains e k where "e = max (binade x) (- 1022)"
    and "k = py_round (x / 2 powi (e - 52))"
    and "0 \<le> k"
    and "real_of_int k * 2 powi (e - 52) \<le> 2 powi (e + 1)"
    and "\<bar>real_of_int k * 2 powi (e - 52) - x\<bar> \<le> 2 powi (e - 53)"
    and "round_f64 x =
      (if 2 ^ 1024 \<le> real_of_int k * 2 powi (e - 52) then PInf
       else Fin (real_of_int k * 2 powi (e - 52)))"
proof -
  define e where "e = max (binade x) (- 1022)"
  define q :: real where "q = 2 powi (e - 52)"
  define k where "k = py_round (x / q)"
  have q0: "0 < q" by (simp add: q_def)
  from assms have nz: "x \<noteq> 0" by simp
  have "x < 2 powi (binade x + 1)"
    using binade_bounds(2) [OF nz] assms by simp
  also have "\<dots> \<le> 2 powi (e + 1)"
    by (intro power_int_increasing) (simp_all add: e_def)
  finally have xb: "x < 2 powi (e + 1)" .
  have "x / q < 2 powi (e + 1) / q"
    using xb q0 by (rule divide_strict_right_mono)
  also have "\<dots> = 2 powi 53"
  proof -
    have eq: "e + 1 - (e - 52) = 53" by simp
    have "(2::real) powi (e + 1) / 2 powi (e - 52) = 2 powi (e + 1 - (e - 52))"
      by (rule power_int_diff [symmetric]) simp
    then show ?thesis
      by (simp only: eq q_def)
  qed
  finally have "x / q \<le> real_of_int (2 ^ 53)"
    by (simp only: two_powi_53)
  then have k53: "k \<le> 2 ^ 53"
    unfolding k_def by (rule py_round_le)
  have "real_of_int 0 \<le> x / q" using assms q0 by simp
  then have k0: "0 \<le> k" unfolding k_def by (rule py_round_ge)
  from k53 have "real_of_int k \<le> real_of_int (2 ^ 53)"
    by (rule iffD2 [OF of_int_le_iff])
  then have "real_of_int k * q \<le> real_of_int (2 ^ 53) * q"
    using q0 by (simp add: mult_right_mono)
  also have "\<dots> = 2 powi (e + 1)"
  proof -
    have eq: "53 + (e - 52) = e + 1" by simp
    have "(2::real) powi 53 * 2 powi (e - 52) = 2 powi (53 + (e - 52))"
      by (rule power_int_add [symmetric]) simp
    then show ?thesis
      by (simp only: eq q_def two_powi_53)
  qed
  finally have kq: "real_of_int k * q \<le> 2 powi (e + 1)" .
  have "\<bar>real_of_int k - x / q\<bar> \<le> 1 / 2"
    unfolding k_def by (rule py_round_error)
  then have "\<bar>real_of_int k - x / q\<bar> * q \<le> 1 / 2 * q"
    using q0 by (simp add: mult_right_mono)
  moreover have "\<bar>real_of_int k - x / q\<bar> * q = \<bar>real_of_int k * q - x\<bar>"
  proof -
    have "\<bar>real_of_int k - x / q\<bar> * q = \<bar>(real_of_int k - x / q) * q\<bar>"
      using q0 by (simp add: abs_mult)
    also have "(real_of_int k - x / q) * q = real_of_int k * q - x"
      using q0 by (simp add: left_diff_distrib)
    finally show ?thesis .
  qed
  moreover have "1 / 2 * q = 2 powi (e - 53)"
  proof -
    have eq: "e - 52 + (- 1) = e - 53" by simp
    have "(2::real) powi (e - 52) * 2 powi (- 1) = 2 powi (e - 52 + (- 1))"
      by (rule power_int_add [symmetric]) simp
    then have "(2::real) powi (e - 53) = 2 powi (e - 52) * 2 powi (- 1)"
      by (simp only: eq)
    then show ?thesis by (simp add: q_def)
  qed
  ultimately have err: "\<bar>real_of_int k * q - x\<bar> \<le> 2 powi (e - 53)" by simp
  have kq0: "0 \<le> real_of_int k * q" using k0 q0 by simp
  have "round_f64 x = (if 2 ^ 1024 \<le> real_of_int k * q then PInf else Fin (real_of_int k * q))"
    using round_f64_cases [OF nz] assms kq0
    by (simp add: k_def q_def e_def del: of_int_mult)
  then show ?thesis
    using that [of e k] k0 kq err by (simp add: e_def k_def q_def)
qed


lemma binade_below_one:
  assumes "0 < x" and "x < 1"
  shows "binade x \<le> - 1"
proof (rule ccontr)
  assume "\<not> binade x \<le> - 1"
  then have "(2::real) powi 0 \<le> 2 powi binade x"
    by (intro power_int_increasing) simp_all
  moreover from assms(1) have "2 powi binade x \<le> x"
    using binade_bounds(1) [of x] by simp
  ultimately show False using assms(2) by simp
qed

lemma binade_from_one:
  assumes "1 \<le> x"
  shows "0 \<le> binade x"
proof (rule ccontr)
  assume "\<not> 0 \<le> binade x"
  then have "(2::real) powi (binade x + 1) \<le> 2 powi 0"
    by (intro power_int_increasing) simp_all
  moreover from assms have "x < 2 powi (binade x + 1)"
    using binade_bounds(2) [of x] by simp
  ultimately show False using assms by simp
qed

lemma two_powi_neg: "(2::real) powi (- int n) = 1 / 2 ^ n"
  by (simp add: power_int_def field_simps)

lemma round_f64_below_one:
  assumes "0 < x" and "x < 1"
  obtains u where "round_f64 x = Fin u" and "0 \<le> u" and "u \<le> 1"
    and "\<bar>u - x\<bar> \<le> 1 / 2 ^ 54"
proof -
  from round_f64_positive [OF assms(1)] obtain e k
    where e: "e = max (binade x) (- 1022)" and k0: "0 \<le> k"
      and kq: "real_of_int k * 2 powi (e - 52) \<le> 2 powi (e + 1)"
      and err: "\<bar>real_of_int k * 2 powi (e - 52) - x\<bar> \<le> 2 powi (e - 53)"
      and r: "round_f64 x =
        (if 2 ^ 1024 \<le> real_of_int k * 2 powi (e - 52) then PInf
         else Fin (real_of_int k * 2 powi (e - 52)))"
    by blast
  define u where "u = real_of_int k * 2 powi (e - 52)"
  from binade_below_one [OF assms] have e1: "e \<le> - 1" by (simp add: e)
  then have "(2::real) powi (e + 1) \<le> 2 powi 0"
    by (intro power_int_increasing) simp_all
  with kq have u1: "u \<le> 1" by (simp add: u_def)
  have u0: "0 \<le> u" using k0 by (simp add: u_def)
  from e1 have "(2::real) powi (e - 53) \<le> 2 powi (- int 54)"
    by (intro power_int_increasing) simp_all
  with err have "\<bar>u - x\<bar> \<le> 1 / 2 ^ 54"
    by (simp only: two_powi_neg u_def)
  moreover from u1 have "\<not> 2 ^ 1024 \<le> u"
    by (simp add: not_le)
  with r have "round_f64 x = Fin u" by (simp add: u_def)
  ultimately show ?thesis using u0 u1 that by blast
qed


lemma round_f64_from_one:
  assumes "1 \<le> x" and "round_f64 x = Fin u"
  shows "1 \<le> u"
proof -
  from assms(1) have pos: "0 < x" by simp
  from round_f64_positive [OF pos] obtain e k
    where e: "e = max (binade x) (- 1022)"
      and k: "k = py_round (x / 2 powi (e - 52))"
      and r: "round_f64 x =
        (if 2 ^ 1024 \<le> real_of_int k * 2 powi (e - 52) then PInf
         else Fin (real_of_int k * 2 powi (e - 52)))"
    by blast
  define q :: real where "q = 2 powi (e - 52)"
  define c :: real where "c = 2 powi 52"
  have c_int: "c = real_of_int (2 ^ 52)" by (simp add: c_def power_int_def)
  from binade_from_one [OF assms(1)] have eb: "e = binade x" and e0: "0 \<le> e"
    by (simp_all add: e)
  have q0: "0 < q" by (simp add: q_def)
  have cq: "c * q = 2 powi e"
  proof -
    have eq: "52 + (e - 52) = e" by simp
    have "(2::real) powi 52 * 2 powi (e - 52) = 2 powi (52 + (e - 52))"
      by (rule power_int_add [symmetric]) simp
    then show ?thesis by (simp only: eq c_def q_def)
  qed
  have "2 powi e \<le> x"
    using binade_bounds(1) [of x] pos by (simp add: eb)
  with cq have "c * q \<le> x" by simp
  with q0 have "c \<le> x / q" by (simp add: field_simps)
  then have "real_of_int (2 ^ 52) \<le> x / q" by (simp only: c_int)
  then have "2 ^ 52 \<le> k" unfolding k q_def by (rule py_round_ge)
  then have "real_of_int (2 ^ 52) \<le> real_of_int k"
    by (rule iffD2 [OF of_int_le_iff])
  then have "c \<le> real_of_int k" by (simp only: c_int)
  then have "c * q \<le> real_of_int k * q"
    using q0 by (intro mult_right_mono) simp_all
  moreover from e0 have "(2::real) powi 0 \<le> 2 powi e"
    by (intro power_int_increasing) simp_all
  ultimately have "1 \<le> real_of_int k * q" using cq by simp
  moreover from r assms(2) have "u = real_of_int k * q"
    by (simp add: q_def split: if_splits)
  ultimately show ?thesis by simp
qed


lemma round_f64_below_pred_one:
  assumes "0 < z" and "z \<le> 1 - 1 / 2 ^ 53"
  obtains t where "round_f64 z = Fin t" and "t \<le> 1 - 1 / 2 ^ 53"
proof -
  from assms(2) have z1: "z < 1" by simp
  from round_f64_positive [OF assms(1)] obtain e k
    where e: "e = max (binade z) (- 1022)"
      and k: "k = py_round (z / 2 powi (e - 52))"
      and kq: "real_of_int k * 2 powi (e - 52) \<le> 2 powi (e + 1)"
      and r: "round_f64 z =
        (if 2 ^ 1024 \<le> real_of_int k * 2 powi (e - 52) then PInf
         else Fin (real_of_int k * 2 powi (e - 52)))"
    by blast
  define t where "t = real_of_int k * 2 powi (e - 52)"
  define p :: real where "p = 1 / 2 ^ 53"
  have p_pos: "0 < p" by (simp add: p_def)
  from binade_below_one [OF assms(1) z1] have e1: "e \<le> - 1" by (simp add: e)
  have t_le: "t \<le> 1 - p"
  proof (cases "e = - 1")
    case True
    have q: "(2::real) powi (e - 52) = p"
      using two_powi_neg [of 53] by (simp add: True p_def)
    from assms(2) have "z \<le> 1 - p" by (simp only: p_def)
    with p_pos have "z / p \<le> (1 - p) / p" by (simp add: divide_right_mono)
    also have "(1 - p) / p = real_of_int (2 ^ 53 - 1)"
      by (simp add: p_def field_simps)
    finally have "k \<le> 2 ^ 53 - 1"
      unfolding k q by (rule py_round_le)
    then have "real_of_int k \<le> real_of_int (2 ^ 53 - 1)"
      by (rule iffD2 [OF of_int_le_iff])
    with p_pos have "real_of_int k * p \<le> real_of_int (2 ^ 53 - 1) * p"
      by (intro mult_right_mono) simp_all
    also have "real_of_int (2 ^ 53 - 1) * p = 1 - p"
      by (simp add: p_def field_simps)
    finally show ?thesis by (simp only: t_def q)
  next
    case False
    with e1 have "e + 1 \<le> - 1" by simp
    then have "(2::real) powi (e + 1) \<le> 2 powi (- 1)"
      by (intro power_int_increasing) simp_all
    with kq have "t \<le> 1 / 2" by (simp add: t_def)
    moreover have "(1::real) / 2 \<le> 1 - p" by (simp add: p_def)
    ultimately show ?thesis by linarith
  qed
  then have "\<not> 2 ^ 1024 \<le> t"
    using p_pos by (simp add: not_le)
  with r have "round_f64 z = Fin t" by (simp add: t_def)
  with t_le that show ?thesis by (simp add: p_def)
qed

lemma round_f64_above_tiny:
  assumes "1 / 2 ^ 1074 \<le> x" and "round_f64 x = Fin u"
  shows "1 / 2 ^ 1074 \<le> u"
proof -
  define m :: real where "m = 1 / 2 ^ 1074"
  have m_pos: "0 < m" by (simp add: m_def)
  from assms(1) have xm: "m \<le> x" by (simp only: m_def)
  with m_pos have pos: "0 < x" by linarith
  from round_f64_positive [OF pos] obtain e k
    where e: "e = max (binade x) (- 1022)"
      and k: "k = py_round (x / 2 powi (e - 52))"
      and r: "round_f64 x =
        (if 2 ^ 1024 \<le> real_of_int k * 2 powi (e - 52) then PInf
         else Fin (real_of_int k * 2 powi (e - 52)))"
    by blast
  define q :: real where "q = 2 powi (e - 52)"
  have q0: "0 < q" by (simp add: q_def)
  have m_powi: "m = 2 powi (- 1074)"
    using two_powi_neg [of 1074] by (simp add: m_def)
  have e_lo: "- 1022 \<le> e" by (simp add: e)
  then have mq: "m \<le> q"
    unfolding m_powi q_def by (intro power_int_increasing) simp_all
  have qx: "q \<le> x"
  proof (cases "- 1022 \<le> binade x")
    case True
    then have "e = binade x" by (simp add: e)
    then have "2 powi e \<le> x"
      using binade_bounds(1) [of x] pos by simp
    moreover have "q \<le> 2 powi e"
      unfolding q_def by (intro power_int_increasing) simp_all
    ultimately show ?thesis by linarith
  next
    case False
    then have "e = - 1022" by (simp add: e)
    then have "q = m" by (simp add: q_def m_powi)
    with xm show ?thesis by simp
  qed
  with q0 have "real_of_int 1 \<le> x / q" by simp
  then have "1 \<le> k" unfolding k q_def by (rule py_round_ge)
  then have "real_of_int 1 \<le> real_of_int k"
    by (rule iffD2 [OF of_int_le_iff])
  with q0 have "1 * q \<le> real_of_int k * q"
    by (intro mult_right_mono) simp_all
  with mq have "m \<le> real_of_int k * q" by simp
  moreover from r assms(2) have "u = real_of_int k * q"
    by (simp add: q_def split: if_splits)
  ultimately show ?thesis by (simp add: m_def)
qed

lemma round_f64_nonneg:
  assumes "0 \<le> x"
  shows "round_f64 x = PInf \<or> (\<exists>u. round_f64 x = Fin u \<and> 0 \<le> u)"
proof (cases "x = 0")
  case True
  then show ?thesis by (simp add: round_f64_def)
next
  case False
  with assms have "0 < x" by simp
  from round_f64_positive [OF this] obtain e k
    where "0 \<le> k"
      and "round_f64 x =
        (if 2 ^ 1024 \<le> real_of_int k * 2 powi (e - 52) then PInf
         else Fin (real_of_int k * 2 powi (e - 52)))"
    by blast
  then show ?thesis by (cases "2 ^ 1024 \<le> real_of_int k * 2 powi (e - 52)") simp_all
qed

text \<open>
  Evaluating the rounding of a given number: with the binade \<open>e\<close> and the rounded
  significand \<open>k\<close> supplied, the premises are decided by computation.
\<close>

lemma round_f64_eval:
  assumes "2 powi e \<le> \<bar>x\<bar>" and "\<bar>x\<bar> < 2 powi (e + 1)"
    and "- 1022 \<le> e" and "e \<le> 1022"
    and "py_round (x / 2 powi (e - 52)) = k"
  shows "round_f64 x = Fin (real_of_int k * 2 powi (e - 52))"
proof -
  define q :: real where "q = 2 powi (e - 52)"
  have q0: "0 < q" by (simp add: q_def)
  from assms(1) have "0 < \<bar>x\<bar>"
    by (rule less_le_trans [rotated]) simp
  then have nz: "x \<noteq> 0" by simp
  have b: "binade x = e" using assms(1,2) by (rule binade_unique)
  have c53: "real_of_int (2 ^ 53) * q = 2 powi (e + 1)"
  proof -
    have eq: "53 + (e - 52) = e + 1" by simp
    have "(2::real) powi 53 * 2 powi (e - 52) = 2 powi (53 + (e - 52))"
      by (rule power_int_add [symmetric]) simp
    then show ?thesis by (simp only: eq q_def two_powi_53)
  qed
  from assms(2) c53 have "\<bar>x\<bar> < real_of_int (2 ^ 53) * q" by simp
  with q0 have xq: "\<bar>x\<bar> / q < real_of_int (2 ^ 53)" by (simp add: field_simps)
  have "x / q \<le> \<bar>x\<bar> / q" using q0 by (simp add: divide_right_mono)
  with xq have "x / q \<le> real_of_int (2 ^ 53)" by linarith
  then have k_hi: "k \<le> 2 ^ 53" using assms(5) py_round_le [of "x / q" "2 ^ 53"]
    by (simp add: q_def)
  have "- (\<bar>x\<bar> / q) \<le> x / q" using q0 by (simp add: field_simps abs_if)
  with xq have "real_of_int (- (2 ^ 53)) \<le> x / q" by simp
  then have k_lo: "- (2 ^ 53) \<le> k" using assms(5) py_round_ge [of "- (2 ^ 53)" "x / q"]
    by (simp add: q_def)
  from k_lo k_hi have "\<bar>k\<bar> \<le> 2 ^ 53" by simp
  then have "real_of_int \<bar>k\<bar> \<le> real_of_int (2 ^ 53)"
    by (rule iffD2 [OF of_int_le_iff])
  then have "real_of_int \<bar>k\<bar> * q \<le> real_of_int (2 ^ 53) * q"
    using q0 by (intro mult_right_mono) simp_all
  moreover have "\<bar>real_of_int k * q\<bar> = real_of_int \<bar>k\<bar> * q"
    using q0 by (simp add: abs_mult)
  moreover from assms(4) have "(2::real) powi (e + 1) \<le> 2 powi 1023"
    by (intro power_int_increasing) simp_all
  moreover have "(2::real) powi 1023 < 2 ^ 1024" by (simp add: power_int_def)
  ultimately have "\<not> 2 ^ 1024 \<le> \<bar>real_of_int k * q\<bar>"
    using c53 by linarith
  with round_f64_cases [OF nz] assms(3,5) show ?thesis
    by (simp add: b q_def)
qed

subsection \<open>The two-way test in double precision\<close>

lemma detect_two_way_arbitrage_f64_total:
  assumes "0 < a" and "0 < b"
  shows "detect_two_way_arbitrage_f64 (Fin a) (Fin b) =
           (case fadd (round_f64 (1 / a)) (round_f64 (1 / b)) of
              Fin t \<Rightarrow>
                if t \<noteq> 0 \<and> t < 1
                then Inr (True, fmul (fsub (round_f64 (1 / t)) (Fin 1)) (Fin 100))
                else Inr (False, Fin 0)
            | PInf \<Rightarrow> Inr (False, Fin 0)
            | NInf \<Rightarrow> Inr (False, Fin 0)
            | NaN \<Rightarrow> Inr (False, Fin 0))"
proof -
  from assms have "0 \<le> 1 / a" and "0 \<le> 1 / b" by simp_all
  from round_f64_nonneg [OF this(1)] round_f64_nonneg [OF this(2)]
  consider (inf) "round_f64 (1 / a) = PInf \<or> round_f64 (1 / b) = PInf"
    | (fin) u v where "round_f64 (1 / a) = Fin u" "0 \<le> u" "round_f64 (1 / b) = Fin v" "0 \<le> v"
    by blast
  then show ?thesis
  proof cases
    case inf
    with round_f64_nonneg [OF \<open>0 \<le> 1 / a\<close>] round_f64_nonneg [OF \<open>0 \<le> 1 / b\<close>]
    have "fadd (round_f64 (1 / a)) (round_f64 (1 / b)) = PInf"
      by auto
    with assms show ?thesis
      by (simp add: detect_two_way_arbitrage_f64_def fle_def)
  next
    case fin
    from fin(2,4) have "0 \<le> u + v" by simp
    from round_f64_nonneg [OF this] fin(1,3) assms show ?thesis
      by (auto simp: detect_two_way_arbitrage_f64_def fle_def)
  qed
qed


lemma detect_two_way_arbitrage_f64_sound:
  assumes "0 < a" and "0 < b"
    and "detect_two_way_arbitrage_f64 (Fin a) (Fin b) = Inr (True, roi)"
  shows "1 / a + 1 / b < 1 + 1 / 2 ^ 53"
proof -
  define x y where "x = 1 / a" and "y = 1 / b"
  from assms(1,2) have xy: "0 < x" "0 < y" by (simp_all add: x_def y_def)
  from assms(3) detect_two_way_arbitrage_f64_total [OF assms(1,2)]
  obtain t where t: "fadd (round_f64 x) (round_f64 y) = Fin t" "t < 1"
    by (auto simp: x_def y_def split: pyfloat.splits if_splits)
  from round_f64_nonneg [of x] round_f64_nonneg [of y] xy t(1)
  obtain u v where uv: "round_f64 x = Fin u" "0 \<le> u" "round_f64 y = Fin v" "0 \<le> v"
    by auto
  with t(1) have tr: "round_f64 (u + v) = Fin t" by simp
  have "u + v < 1"
  proof (rule ccontr)
    assume "\<not> u + v < 1"
    then have "1 \<le> u + v" by simp
    from round_f64_from_one [OF this tr] t(2) show False by simp
  qed
  with uv(2,4) have u1: "u < 1" and v1: "v < 1" by simp_all
  have x1: "x < 1"
  proof (rule ccontr)
    assume "\<not> x < 1"
    then have "1 \<le> x" by simp
    from round_f64_from_one [OF this uv(1)] u1 show False by simp
  qed
  have y1: "y < 1"
  proof (rule ccontr)
    assume "\<not> y < 1"
    then have "1 \<le> y" by simp
    from round_f64_from_one [OF this uv(3)] v1 show False by simp
  qed
  from round_f64_below_one [OF xy(1) x1] uv(1) have ex: "\<bar>u - x\<bar> \<le> 1 / 2 ^ 54"
    by auto
  from round_f64_below_one [OF xy(2) y1] uv(3) have ey: "\<bar>v - y\<bar> \<le> 1 / 2 ^ 54"
    by auto
  have "(1::real) / 2 ^ 54 + 1 / 2 ^ 54 = 1 / 2 ^ 53" by simp
  with ex ey \<open>u + v < 1\<close> have "x + y < 1 + 1 / 2 ^ 53"
    by linarith
  then show ?thesis by (simp only: x_def y_def)
qed

lemma detect_two_way_arbitrage_f64_complete:
  assumes "0 < a" and "0 < b" and "a < 2 ^ 1024" and "b < 2 ^ 1024"
    and "1 / a + 1 / b \<le> 1 - 1 / 2 ^ 52"
  shows "\<exists>roi. detect_two_way_arbitrage_f64 (Fin a) (Fin b) = Inr (True, roi)"
proof -
  define x y where "x = 1 / a" and "y = 1 / b"
  define m :: real where "m = 1 / 2 ^ 1074"
  from assms(1,2) have xy: "0 < x" "0 < y" by (simp_all add: x_def y_def)
  from assms(5) have s: "x + y \<le> 1 - 1 / 2 ^ 52" by (simp only: x_def y_def)
  have "(0::real) < 1 / 2 ^ 52" by simp
  with s xy have x1: "x < 1" and y1: "y < 1" by linarith+
  from round_f64_below_one [OF xy(1) x1] obtain u
    where u: "round_f64 x = Fin u" "0 \<le> u" "\<bar>u - x\<bar> \<le> 1 / 2 ^ 54" by blast
  from round_f64_below_one [OF xy(2) y1] obtain v
    where v: "round_f64 y = Fin v" "0 \<le> v" "\<bar>v - y\<bar> \<le> 1 / 2 ^ 54" by blast
  have "(1::real) / 2 ^ 1024 \<le> 1 / a"
    using assms(1,3) by (simp add: field_simps)
  moreover have "m \<le> 1 / 2 ^ 1024"
    by (simp add: m_def field_simps)
  ultimately have "m \<le> x" by (simp add: x_def)
  then have "1 / 2 ^ 1074 \<le> x" by (simp only: m_def)
  from round_f64_above_tiny [OF this u(1)] have um: "m \<le> u" by (simp only: m_def)
  have m_pos: "0 < m" by (simp add: m_def)
  with um v(2) have z0: "0 < u + v" and zm: "m \<le> u + v" by linarith+
  have half: "(1::real) / 2 ^ 54 + 1 / 2 ^ 54 = 1 / 2 ^ 53"
    and dbl: "(1::real) / 2 ^ 53 + 1 / 2 ^ 53 = 1 / 2 ^ 52" by simp_all
  from u(3) v(3) s half dbl have "u + v \<le> 1 - 1 / 2 ^ 53" by linarith
  from round_f64_below_pred_one [OF z0 this] obtain t
    where t: "round_f64 (u + v) = Fin t" "t \<le> 1 - 1 / 2 ^ 53" by blast
  from zm have "1 / 2 ^ 1074 \<le> u + v" by (simp only: m_def)
  from round_f64_above_tiny [OF this t(1)] have "m \<le> t" by (simp only: m_def)
  with m_pos have t0: "t \<noteq> 0" by linarith
  have "(0::real) < 1 / 2 ^ 53" by simp
  with t(2) have t1: "t < 1" by linarith
  from u(1) v(1) t(1) have "fadd (round_f64 (1 / a)) (round_f64 (1 / b)) = Fin t"
    by (simp add: x_def y_def)
  with t0 t1 show ?thesis
    by (simp add: detect_two_way_arbitrage_f64_total [OF assms(1,2)])
qed

text \<open>
  C1, as amended. For all odds \<open>a > 0\<close> and \<open>b > 0\<close>, \<open>detect_two_way_arbitrage\<close>
  returns normally. It reports an arbitrage exactly when the implied total it computes,
  the double-precision sum of the double-precision values of \<open>1/a\<close> and \<open>1/b\<close>, is a
  finite number \<open>t\<close> with \<open>t \<noteq> 0\<close> and \<open>t < 1\<close>; the ROI is then the double-precision
  value of \<open>(1/t - 1) * 100\<close>; otherwise it reports no arbitrage with ROI \<open>0\<close>. Against
  the exact value of \<open>1/a + 1/b\<close>: an arbitrage is only reported when
  \<open>1/a + 1/b < 1 + 2\<^sup>-\<^sup>5\<^sup>3\<close>, and for odds in the range of the finite doubles it is
  always reported when \<open>1/a + 1/b \<le> 1 - 2\<^sup>-\<^sup>5\<^sup>2\<close>.
\<close>

theorem detect_two_way_arbitrage_f64_positive:
  assumes "0 < a" and "0 < b"
  shows "detect_two_way_arbitrage_f64 (Fin a) (Fin b) =
           (case fadd (round_f64 (1 / a)) (round_f64 (1 / b)) of
              Fin t \<Rightarrow>
                if t \<noteq> 0 \<and> t < 1
                then Inr (True, fmul (fsub (round_f64 (1 / t)) (Fin 1)) (Fin 100))
                else Inr (False, Fin 0)
            | PInf \<Rightarrow> Inr (False, Fin 0)
            | NInf \<Rightarrow> Inr (False, Fin 0)
            | NaN \<Rightarrow> Inr (False, Fin 0))
     \<and> ((\<exists>roi. detect_two_way_arbitrage_f64 (Fin a) (Fin b) = Inr (True, roi)) \<longrightarrow>
          1 / a + 1 / b < 1 + 1 / 2 ^ 53)
     \<and> (a < 2 ^ 1024 \<and> b < 2 ^ 1024 \<and> 1 / a + 1 / b \<le> 1 - 1 / 2 ^ 52 \<longrightarrow>
          (\<exists>roi. detect_two_way_arbitrage_f64 (Fin a) (Fin b) = Inr (True, roi)))"
proof (intro conjI impI)
  show "detect_two_way_arbitrage_f64 (Fin a) (Fin b) =
           (case fadd (round_f64 (1 / a)) (round_f64 (1 / b)) of
              Fin t \<Rightarrow>
                if t \<noteq> 0 \<and> t < 1
                then Inr (True, fmul (fsub (round_f64 (1 / t)) (Fin 1)) (Fin 100))
                else Inr (False, Fin 0)
            | PInf \<Rightarrow> Inr (False, Fin 0)
            | NInf \<Rightarrow> Inr (False, Fin 0)
            | NaN \<Rightarrow> Inr (False, Fin 0))"
    using assms by (rule detect_two_way_arbitrage_f64_total)
next
  assume "\<exists>roi. detect_two_way_arbitrage_f64 (Fin a) (Fin b) = Inr (True, roi)"
  then obtain roi where "detect_two_way_arbitrage_f64 (Fin a) (Fin b) = Inr (True, roi)" ..
  with assms show "1 / a + 1 / b < 1 + 1 / 2 ^ 53"
    by (rule detect_two_way_arbitrage_f64_sound)
next
  assume "a < 2 ^ 1024 \<and> b < 2 ^ 1024 \<and> 1 / a + 1 / b \<le> 1 - 1 / 2 ^ 52"
  with assms show "\<exists>roi. detect_two_way_arbitrage_f64 (Fin a) (Fin b) = Inr (True, roi)"
    by (intro detect_two_way_arbitrage_f64_complete) simp_all
qed

text \<open>
  Two runs: at odds \<open>2.5\<close> and \<open>2.5\<close> the implied total is the double next to \<open>0.8\<close>
  and the ROI is \<open>25\<close>; at odds \<open>2\<close> and \<open>2\<close> the implied total is \<open>1\<close>.
\<close>

lemma round_f64_two_fifths:
  "round_f64 (2 / 5) = Fin (3602879701896397 / 9007199254740992)"
  using round_f64_eval [of "- 2" "2 / 5" "7205759403792794"]
  by (simp add: py_round_def)

lemma round_f64_four_fifths:
  "round_f64 (3602879701896397 / 4503599627370496) = Fin (3602879701896397 / 4503599627370496)"
  using round_f64_eval [of "- 1" "3602879701896397 / 4503599627370496" "7205759403792794"]
  by (simp add: py_round_def)

lemma round_f64_five_fourths:
  "round_f64 (4503599627370496 / 3602879701896397) = Fin (5 / 4)"
  using round_f64_eval [of "0" "4503599627370496 / 3602879701896397" "5629499534213120"]
  by (simp add: py_round_def)

lemma round_f64_quarter:
  "round_f64 (1 / 4) = Fin (1 / 4)"
  using round_f64_eval [of "- 2" "1 / 4" "4503599627370496"]
  by (simp add: py_round_def)

lemma round_f64_twenty_five:
  "round_f64 (25) = Fin 25"
  using round_f64_eval [of "4" "25" "7036874417766400"]
  by (simp add: py_round_def)

lemma round_f64_half:
  "round_f64 (1 / 2) = Fin (1 / 2)"
  using round_f64_eval [of "- 1" "1 / 2" "4503599627370496"]
  by (simp add: py_round_def)

lemma round_f64_one:
  "round_f64 (1) = Fin 1"
  using round_f64_eval [of "0" "1" "4503599627370496"]
  by (simp add: py_round_def)

theorem detect_two_way_arbitrage_f64_positive_witness:
  "detect_two_way_arbitrage_f64 (Fin (5 / 2)) (Fin (5 / 2)) = Inr (True, Fin 25)
   \<and> detect_two_way_arbitrage_f64 (Fin 2) (Fin 2) = Inr (False, Fin 0)"
proof
  have pos: "(0::real) < 5 / 2" by simp
  have "fadd (round_f64 (1 / (5 / 2))) (round_f64 (1 / (5 / 2))) = Fin (3602879701896397 / 4503599627370496)"
    by (simp add: round_f64_two_fifths round_f64_four_fifths)
  moreover have "fmul (fsub (round_f64 (1 / (3602879701896397 / 4503599627370496))) (Fin 1)) (Fin 100) = Fin 25"
    by (simp add: fsub_def round_f64_five_fourths round_f64_quarter round_f64_twenty_five)
  ultimately show "detect_two_way_arbitrage_f64 (Fin (5 / 2)) (Fin (5 / 2)) = Inr (True, Fin 25)"
    using detect_two_way_arbitrage_f64_positive [OF pos pos, THEN conjunct1]
    by (simp del: fadd.simps fmul.simps)
next
  have pos: "(0::real) < 2" by simp
  have "fadd (round_f64 (1 / 2)) (round_f64 (1 / 2)) = Fin 1"
    by (simp add: round_f64_half round_f64_one)
  then show "detect_two_way_arbitrage_f64 (Fin 2) (Fin 2) = Inr (False, Fin 0)"
    using detect_two_way_arbitrage_f64_positive [OF pos pos, THEN conjunct1]
    by (simp del: fadd.simps)
qed

text \<open>
  The claim as stated decides by the exact value of \<open>1/a + 1/b\<close>. At the doubles
  \<open>a = 4.78125\<close> and \<open>b = 1.2644628099173554\<close> the exact sum is below \<open>1\<close>, by less
  than \<open>2\<^sup>-\<^sup>5\<^sup>5\<close>; the sum the code computes rounds to \<open>1\<close>, and no arbitrage is
  reported.
\<close>

lemma round_f64_inverse_a:
  "round_f64 (32 / 153) = Fin (7535434670632987 / 36028797018963968)"
  using round_f64_eval [of "- 3" "32 / 153" "7535434670632987"]
  by (simp add: py_round_def)

lemma round_f64_inverse_b:
  "round_f64 (1125899906842624 / 1423658559891913) = Fin (7123340587082745 / 9007199254740992)"
  using round_f64_eval [of "- 1" "1125899906842624 / 1423658559891913" "7123340587082745"]
  by (simp add: py_round_def)

lemma round_f64_sum_ab:
  "round_f64 (36028797018963967 / 36028797018963968) = Fin 1"
  using round_f64_eval [of "- 1" "36028797018963967 / 36028797018963968" "9007199254740992"]
  by (simp add: py_round_def)

theorem detect_two_way_arbitrage_f64_counterexample:
  "detect_two_way_arbitrage_f64 (Fin (153 / 32)) (Fin (1423658559891913 / 1125899906842624))
     = Inr (False, Fin 0)
   \<and> 1 / (153 / 32) + 1 / (1423658559891913 / 1125899906842624) < (1::real)"
proof
  have a: "(0::real) < 153 / 32" and b: "(0::real) < 1423658559891913 / 1125899906842624"
    by simp_all
  have "fadd (round_f64 (1 / (153 / 32)))
      (round_f64 (1 / (1423658559891913 / 1125899906842624))) = Fin 1"
    by (simp add: round_f64_inverse_a round_f64_inverse_b round_f64_sum_ab)
  then show "detect_two_way_arbitrage_f64 (Fin (153 / 32))
      (Fin (1423658559891913 / 1125899906842624)) = Inr (False, Fin 0)"
    using detect_two_way_arbitrage_f64_total [OF a b]
    by (simp del: fadd.simps)
next
  show "1 / (153 / 32) + 1 / (1423658559891913 / 1125899906842624) < (1::real)"
    by simp
qed

subsection \<open>The safety filters\<close>

text \<open>
  C3. The filters run in the order profit ceiling, profit floor, rule mismatch, and the
  first that fails decides: an ROI above \<open>MAX_ROI_THRESHOLD\<close> is rejected as
  \<open>PALPABLE_ERROR\<close> whatever the floor, the bookmakers and the sport are; an ROI not above
  the ceiling and below \<open>MIN_ROI_THRESHOLD\<close> is rejected as \<open>LOW_PROFIT\<close> whatever the
  bookmakers and the sport are; and a \<open>RULE_MISMATCH\<close> rejection is only reached by an
  ROI that passed both.
\<close>

theorem apply_safety_filters_order:
  "(MAX_ROI_THRESHOLD cfg < roi \<longrightarrow>
      apply_safety_filters cfg roi bookmaker_a bookmaker_b sport =
        (False, Some (PALPABLE_ERROR roi (MAX_ROI_THRESHOLD cfg))))
   \<and> (roi \<le> MAX_ROI_THRESHOLD cfg \<and> roi < MIN_ROI_THRESHOLD cfg \<longrightarrow>
      apply_safety_filters cfg roi bookmaker_a bookmaker_b sport =
        (False, Some (LOW_PROFIT roi (MIN_ROI_THRESHOLD cfg))))
   \<and> (\<forall>a rule_a b rule_b.
        apply_safety_filters cfg roi bookmaker_a bookmaker_b sport =
          (False, Some (RULE_MISMATCH a rule_a b rule_b)) \<longrightarrow>
        MIN_ROI_THRESHOLD cfg \<le> roi \<and> roi \<le> MAX_ROI_THRESHOLD cfg)"
  by (auto simp: apply_safety_filters_def Let_def split: if_splits)

lemma apply_safety_filters_mismatch_eval:
  "apply_safety_filters settings_py 5 ''DraftKings'' ''Kwiff'' ''basketball_nba'' =
     (False, Some (RULE_MISMATCH ''DraftKings'' ''includes_overtime'' ''Kwiff'' ''regulation_only''))"
  by code_simp

theorem apply_safety_filters_order_witness:
  "apply_safety_filters settings_py 20 ''DraftKings'' ''Kwiff'' ''basketball_nba'' =
     (False, Some (PALPABLE_ERROR 20 15))
   \<and> apply_safety_filters (settings_py\<lparr>MAX_ROI_THRESHOLD := 1, MIN_ROI_THRESHOLD := 30\<rparr>)
       20 ''DraftKings'' ''Kwiff'' ''basketball_nba'' = (False, Some (PALPABLE_ERROR 20 1))
   \<and> apply_safety_filters settings_py 1 ''DraftKings'' ''Kwiff'' ''basketball_nba'' =
     (False, Some (LOW_PROFIT 1 (3 / 2)))
   \<and> apply_safety_filters settings_py 5 ''DraftKings'' ''Kwiff'' ''basketball_nba'' =
     (False, Some (RULE_MISMATCH ''DraftKings'' ''includes_overtime'' ''Kwiff'' ''regulation_only''))
   \<and> MIN_ROI_THRESHOLD settings_py \<le> 5 \<and> 5 \<le> MAX_ROI_THRESHOLD settings_py"
  using apply_safety_filters_order [of settings_py 20 "''DraftKings''" "''Kwiff''" "''basketball_nba''"]
    apply_safety_filters_order [of "settings_py\<lparr>MAX_ROI_THRESHOLD := 1, MIN_ROI_THRESHOLD := 30\<rparr>"
      20 "''DraftKings''" "''Kwiff''" "''basketball_nba''"]
    apply_safety_filters_order [of settings_py 1 "''DraftKings''" "''Kwiff''" "''basketball_nba''"]
    apply_safety_filters_mismatch_eval
  by (simp add: settings_py_def)

text \<open>
  C4. The specification lets the rule-mismatch filter resolve both rules through the
  lookup of \<open>_get_settlement_rule\<close>, which would reject the basketball pair
  \<^verbatim>\<open>draftkings\<close> / \<^verbatim>\<open>kwiff\<close>: their rules resolve to \<open>includes_overtime\<close> and
  \<open>regulation_only\<close>. \<open>apply_safety_filters\<close> reads the table with the bookmaker keys
  as they come, finds neither, and lets the candidate pass.
\<close>

theorem rule_mismatch_filter_exact_lookup:
  "get_settlement_rule settings_py ''draftkings'' ''basketball_nba'' = ''includes_overtime''
   \<and> get_settlement_rule settings_py ''kwiff'' ''basketball_nba'' = ''regulation_only''
   \<and> str_in ''basketball'' (lower ''basketball_nba'')
   \<and> apply_safety_filters settings_py 5 ''draftkings'' ''kwiff'' ''basketball_nba'' = (True, None)"
  by code_simp

subsection \<open>The classifier\<close>

text \<open>
  C8, as amended. \<open>get_sharp_bookmaker a b\<close> returns \<open>a\<close> whenever \<open>a\<close> classifies as
  sharp (also when \<open>b\<close> does too), returns \<open>b\<close> when only \<open>b\<close> classifies as sharp,
  and returns none exactly when neither does.
\<close>

theorem get_sharp_bookmaker_cases:
  "(classify_bookmaker cfg a = ''sharp'' \<longrightarrow> get_sharp_bookmaker cfg a b = Some a)
   \<and> (classify_bookmaker cfg a \<noteq> ''sharp'' \<and> classify_bookmaker cfg b = ''sharp'' \<longrightarrow>
        get_sharp_bookmaker cfg a b = Some b)
   \<and> (classify_bookmaker cfg a \<noteq> ''sharp'' \<and> classify_bookmaker cfg b \<noteq> ''sharp'' \<longrightarrow>
        get_sharp_bookmaker cfg a b = None)"
  by (simp add: get_sharp_bookmaker_def Let_def)

lemma classify_pinnacle: "classify_bookmaker settings_py ''pinnacle'' = ''sharp''"
  by code_simp
lemma classify_unibet_us: "classify_bookmaker settings_py ''unibet_us'' = ''soft''"
  by code_simp
lemma classify_draftkings: "classify_bookmaker settings_py ''draftkings'' = ''unknown''"
  by code_simp

theorem get_sharp_bookmaker_cases_witness:
  "get_sharp_bookmaker settings_py ''pinnacle'' ''unibet_us'' = Some ''pinnacle''
   \<and> get_sharp_bookmaker settings_py ''unibet_us'' ''pinnacle'' = Some ''pinnacle''
   \<and> get_sharp_bookmaker settings_py ''unibet_us'' ''draftkings'' = None"
  using get_sharp_bookmaker_cases [of settings_py "''pinnacle''" "''unibet_us''"]
    get_sharp_bookmaker_cases [of settings_py "''unibet_us''" "''pinnacle''"]
    get_sharp_bookmaker_cases [of settings_py "''unibet_us''" "''draftkings''"]
    classify_pinnacle classify_unibet_us classify_draftkings
  by simp

text \<open>
  The claim as stated returns none for a pair of two sharp bookmakers; the code returns
  the first of them.
\<close>

theorem get_sharp_bookmaker_counterexample:
  "classify_bookmaker settings_py ''pinnacle'' = ''sharp''
   \<and> classify_bookmaker settings_py ''betfair'' = ''sharp''
   \<and> get_sharp_bookmaker settings_py ''pinnacle'' ''betfair'' \<noteq> None"
  by code_simp

subsection \<open>Scanning an event\<close>

lemma for_each_member:
  "for_each body xs = Inr ys \<Longrightarrow> y \<in> set ys \<Longrightarrow>
   \<exists>x\<in>set xs. \<exists>zs. body x = Inr zs \<and> y \<in> set zs"
  by (induction xs arbitrary: ys) (auto split: sum.splits)

lemma card_bookies:
  "card {a, b, c} < 2 \<longleftrightarrow> a = b \<and> b = c"
  by (auto simp: card_insert_if)

lemma two_way_body_bets:
  assumes "two_way_body cfg ev outcome_a outcome_b a b = Inr opps" and "opp \<in> set opps"
  shows "map bet_bookmaker (opp_bets opp) = [entry_bookmaker a, entry_bookmaker b]
     \<and> entry_bookmaker a \<noteq> entry_bookmaker b"
  using assms
  by (auto simp: two_way_body_def make_opportunity_def
      split: if_splits sum.splits prod.splits)

lemma three_way_body_bets:
  assumes "three_way_body cfg ev o1 ox o2 e1 ex e2 = Inr opps" and "opp \<in> set opps"
  shows "map bet_bookmaker (opp_bets opp) =
           [entry_bookmaker e1, entry_bookmaker ex, entry_bookmaker e2]
     \<and> \<not> (entry_bookmaker e1 = entry_bookmaker ex \<and> entry_bookmaker ex = entry_bookmaker e2)"
  using assms
  by (auto simp: three_way_body_def make_opportunity_def Let_def card_bookies
      simp del: card_insert_if  split: if_splits sum.splits prod.splits)

text \<open>
  C5, as amended. Every opportunity that \<open>find_arbitrage_opportunities\<close> returns either
  has two bets, on two different bookmakers, or has three bets that are not all on one
  bookmaker: a three-way opportunity names at least two bookmakers, and two of its legs
  may share one.
\<close>

theorem find_arbitrage_opportunities_bookmakers:
  assumes "find_arbitrage_opportunities cfg now tracker ev parsed_odds = Inr (tracker', opportunities)"
    and "opp \<in> set opportunities"
  shows "(length (opp_bets opp) = 2 \<and> distinct (map bet_bookmaker (opp_bets opp)))
       \<or> (length (opp_bets opp) = 3 \<and> 2 \<le> card (set (map bet_bookmaker (opp_bets opp))))"
proof -
  define m where "m = group_by_outcome parsed_odds"
  consider
    (two) outcome_a entries_a outcome_b entries_b
      where "m = [(outcome_a, entries_a), (outcome_b, entries_b)]"
  | (three) outcome_1 entries_1 outcome_x entries_x outcome_2 entries_2
      where "m = [(outcome_1, entries_1), (outcome_x, entries_x), (outcome_2, entries_2)]"
  | (other) "length m \<noteq> 2" "length m \<noteq> 3"
  proof (cases "length m = 2 \<or> length m = 3")
    case True
    then show ?thesis
    proof
      assume "length m = 2"
      then obtain p q where "m = [p, q]"
        by (auto simp: length_Suc_conv numeral_2_eq_2)
      then show ?thesis using two [of "fst p" "snd p" "fst q" "snd q"] by simp
    next
      assume "length m = 3"
      then obtain p q r where "m = [p, q, r]"
        by (auto simp: length_Suc_conv numeral_3_eq_3)
      then show ?thesis
        using three [of "fst p" "snd p" "fst q" "snd q" "fst r" "snd r"] by simp
    qed
  next
    case False
    then show ?thesis using other by simp
  qed
  then show ?thesis
  proof cases
    case two
    with assms(1) have
      "for_each (\<lambda>a. for_each (two_way_body cfg ev outcome_a outcome_b a) entries_b) entries_a
         = Inr opportunities"
      by (auto simp: find_arbitrage_opportunities_def m_def [symmetric] split: sum.splits)
    from for_each_member [OF this assms(2)] obtain a zs
      where "for_each (two_way_body cfg ev outcome_a outcome_b a) entries_b = Inr zs"
        and "opp \<in> set zs" by blast
    from for_each_member [OF this] obtain b opps
      where "two_way_body cfg ev outcome_a outcome_b a b = Inr opps" and "opp \<in> set opps"
      by blast
    from two_way_body_bets [OF this]
    have "map bet_bookmaker (opp_bets opp) = [entry_bookmaker a, entry_bookmaker b]"
      and "entry_bookmaker a \<noteq> entry_bookmaker b" by simp_all
    then have "distinct (map bet_bookmaker (opp_bets opp))"
      and "length (map bet_bookmaker (opp_bets opp)) = 2" by simp_all
    then show ?thesis by simp
  next
    case three
    with assms(1) have
      "for_each (\<lambda>e1. for_each (\<lambda>ex.
          for_each (three_way_body cfg ev outcome_1 outcome_x outcome_2 e1 ex) entries_2)
            entries_x) entries_1 = Inr opportunities"
      by (auto simp: find_arbitrage_opportunities_def m_def [symmetric] split: sum.splits)
    from for_each_member [OF this assms(2)] obtain e1 zs where
      "for_each (\<lambda>ex. for_each (three_way_body cfg ev outcome_1 outcome_x outcome_2 e1 ex)
          entries_2) entries_x = Inr zs" and "opp \<in> set zs" by blast
    from for_each_member [OF this] obtain ex zs' where
      "for_each (three_way_body cfg ev outcome_1 outcome_x outcome_2 e1 ex) entries_2 = Inr zs'"
      and "opp \<in> set zs'" by blast
    from for_each_member [OF this] obtain e2 opps where
      "three_way_body cfg ev outcome_1 outcome_x outcome_2 e1 ex e2 = Inr opps"
      and "opp \<in> set opps" by blast
    from three_way_body_bets [OF this]
    have bs: "map bet_bookmaker (opp_bets opp) =
        [entry_bookmaker e1, entry_bookmaker ex, entry_bookmaker e2]"
      and ne: "\<not> (entry_bookmaker e1 = entry_bookmaker ex \<and> entry_bookmaker ex = entry_bookmaker e2)"
      by simp_all
    from ne have "\<not> card {entry_bookmaker e1, entry_bookmaker ex, entry_bookmaker e2} < 2"
      by (simp only: card_bookies not_False_eq_True)
    with bs have "2 \<le> card (set (map bet_bookmaker (opp_bets opp)))"
      by (simp only: list.set not_less)
    moreover from bs have "length (map bet_bookmaker (opp_bets opp)) = 3" by simp
    ultimately show ?thesis by simp
  next
    case other
    then have "opportunities = []"
      using assms(1)
      by (auto simp: find_arbitrage_opportunities_def m_def [symmetric]
          split: sum.splits list.splits)
    with assms(2) show ?thesis by simp
  qed
qed

lemma two_way_scan_eval:
  "map_sum id snd
     (find_arbitrage_opportunities settings_py 0 \<lparr>sharp_prices = Map.empty\<rparr>
        \<lparr>ev_id = Some ''e1'', ev_sport_key = Some ''basketball_nba'',
         ev_sport_title = Some ''NBA'', ev_home_team = Some ''Lakers'',
         ev_away_team = Some ''Celtics'', ev_commence_time = None\<rparr>
        [\<lparr>entry_bookmaker = ''unibet'', entry_outcome = ''Lakers'', entry_odds = 21 / 10\<rparr>,
         \<lparr>entry_bookmaker = ''unibet'', entry_outcome = ''Celtics'', entry_odds = 41 / 20\<rparr>,
         \<lparr>entry_bookmaker = ''williamhill'', entry_outcome = ''Celtics'',
          entry_odds = 41 / 20\<rparr>])
   = Inr [\<lparr>opp_event_id = Some ''e1'', opp_sport = ''NBA'',
           opp_event_name = ''Lakers vs Celtics'', opp_commence_time = None,
           opp_roi = 310 / 83,
           opp_bets = [\<lparr>bet_outcome = ''Lakers'', bet_odds = 21 / 10,
                        bet_bookmaker = ''unibet''\<rparr>,
                       \<lparr>bet_outcome = ''Celtics'', bet_odds = 41 / 20,
                        bet_bookmaker = ''williamhill''\<rparr>],
           opp_stakes = [500, 500]\<rparr>]"
  by code_simp

theorem find_arbitrage_opportunities_bookmakers_witness:
  "\<exists>tracker' opp.
     find_arbitrage_opportunities settings_py 0 \<lparr>sharp_prices = Map.empty\<rparr>
        \<lparr>ev_id = Some ''e1'', ev_sport_key = Some ''basketball_nba'',
         ev_sport_title = Some ''NBA'', ev_home_team = Some ''Lakers'',
         ev_away_team = Some ''Celtics'', ev_commence_time = None\<rparr>
        [\<lparr>entry_bookmaker = ''unibet'', entry_outcome = ''Lakers'', entry_odds = 21 / 10\<rparr>,
         \<lparr>entry_bookmaker = ''unibet'', entry_outcome = ''Celtics'', entry_odds = 41 / 20\<rparr>,
         \<lparr>entry_bookmaker = ''williamhill'', entry_outcome = ''Celtics'',
          entry_odds = 41 / 20\<rparr>]
       = Inr (tracker', [opp])
     \<and> map bet_bookmaker (opp_bets opp) = [''unibet'', ''williamhill'']
     \<and> distinct (map bet_bookmaker (opp_bets opp))"
proof -
  let ?run = "find_arbitrage_opportunities settings_py 0 \<lparr>sharp_prices = Map.empty\<rparr>
        \<lparr>ev_id = Some ''e1'', ev_sport_key = Some ''basketball_nba'',
         ev_sport_title = Some ''NBA'', ev_home_team = Some ''Lakers'',
         ev_away_team = Some ''Celtics'', ev_commence_time = None\<rparr>
        [\<lparr>entry_bookmaker = ''unibet'', entry_outcome = ''Lakers'', entry_odds = 21 / 10\<rparr>,
         \<lparr>entry_bookmaker = ''unibet'', entry_outcome = ''Celtics'', entry_odds = 41 / 20\<rparr>,
         \<lparr>entry_bookmaker = ''williamhill'', entry_outcome = ''Celtics'',
          entry_odds = 41 / 20\<rparr>]"
  from two_way_scan_eval obtain tracker' opp
    where run: "?run = Inr (tracker', [opp])"
      and bs: "map bet_bookmaker (opp_bets opp) = [''unibet'', ''williamhill'']"
    by (cases ?run) auto
  from find_arbitrage_opportunities_bookmakers [OF run, of opp] bs
  have "distinct (map bet_bookmaker (opp_bets opp))"
    by simp
  with run bs show ?thesis
    by (intro exI [of _ tracker'] exI [of _ opp] conjI)
qed

text \<open>
  The claim as stated, no bookmaker on more than one bet, fails for a three-way market:
  the scan only skips a combination whose three legs are all on one bookmaker. Here the
  home win and the draw are both quoted by \<^verbatim>\<open>unibet\<close>.
\<close>

theorem find_arbitrage_opportunities_three_way_counterexample:
  "map_sum id snd
     (find_arbitrage_opportunities settings_py 0 \<lparr>sharp_prices = Map.empty\<rparr>
        \<lparr>ev_id = Some ''e2'', ev_sport_key = Some ''soccer_epl'', ev_sport_title = Some ''EPL'',
         ev_home_team = Some ''Arsenal'', ev_away_team = Some ''Chelsea'',
         ev_commence_time = None\<rparr>
        [\<lparr>entry_bookmaker = ''unibet'', entry_outcome = ''Arsenal'', entry_odds = 3\<rparr>,
         \<lparr>entry_bookmaker = ''unibet'', entry_outcome = ''Draw'', entry_odds = 3\<rparr>,
         \<lparr>entry_bookmaker = ''williamhill'', entry_outcome = ''Chelsea'', entry_odds = 4\<rparr>])
   = Inr [\<lparr>opp_event_id = Some ''e2'', opp_sport = ''EPL'',
           opp_event_name = ''Arsenal vs Chelsea'', opp_commence_time = None,
           opp_roi = 100 / 11,
           opp_bets = [\<lparr>bet_outcome = ''Arsenal'', bet_odds = 3, bet_bookmaker = ''unibet''\<rparr>,
                       \<lparr>bet_outcome = ''Draw'', bet_odds = 3, bet_bookmaker = ''unibet''\<rparr>,
                       \<lparr>bet_outcome = ''Chelsea'', bet_odds = 4,
                        bet_bookmaker = ''williamhill''\<rparr>],
           opp_stakes = [350, 350, 250]\<rparr>]"
  by code_simp

subsection \<open>Plain drift\<close>

text \<open>
  C6. The specification overwrites the stored price map on every call. When
  \<open>track_odds_drift\<close> finds a drift it returns the alert from inside the loop, before the
  assignment that stores \<^verbatim>\<open>current_odds\<close>: the map stored for the event is still the
  old one.
\<close>

theorem track_odds_drift_alert_keeps_previous:
  "track_odds_drift settings_py \<lparr>previous_odds = [Some ''e1'' \<mapsto> [(''Lakers'', 2)]]\<rparr>
     (Some ''e1'') [(''Lakers'', 3)]
   = Inr (\<lparr>previous_odds = [Some ''e1'' \<mapsto> [(''Lakers'', 2)]]\<rparr>,
          Some \<lparr>da_event_id = Some ''e1'', da_outcome = ''Lakers'', da_previous_odds = 2,
                da_current_odds = 3, drift_percent = 50\<rparr>)
   \<and> [(''Lakers'', 2 :: real)] \<noteq> [(''Lakers'', 3)]"
  by (simp add: track_odds_drift_def settings_py_def py_div_def)

text \<open>A call that returns no alert does store the prices it was given.\<close>

lemma track_odds_drift_stores_without_alert:
  assumes "track_odds_drift cfg self event_id current_odds = Inr (self', None)"
    and "ENABLE_DRIFT_TRACKER cfg"
  shows "previous_odds self' event_id = Some current_odds"
  using assms
  by (auto simp: track_odds_drift_def split: option.splits sum.splits if_splits)

subsection \<open>The sharp consensus\<close>









end
